theory Spec2Isabelle
  imports Main "HOL-Library.Word" "HOL-Library.Sublist"
begin

section \<open>Go values used by nvidia.go\<close>

text \<open>
  Go's \<open>uint\<close> is a 64-bit unsigned integer on the platforms the plugin is built for;
  its arithmetic wraps around. A Go \<open>string\<close> is a sequence of bytes. A Go \<open>error\<close>
  value is represented by the text its \<open>Error()\<close> method returns, and a nullable
  \<open>error\<close> by an option.
\<close>

type_synonym uint = "64 word"
type_synonym uint64 = "64 word"
type_synonym go_error = string

subsection \<open>The functions of package strings, strconv and fmt that the file calls\<close>

text \<open>\<open>strings.Index\<close>: the position of the first occurrence of \<open>sep\<close> in \<open>s\<close>
  (Go returns -1 where this returns \<open>None\<close>).\<close>

fun Index :: "string \<Rightarrow> string \<Rightarrow> nat option" where
  "Index [] sep = (if sep = [] then Some 0 else None)"
| "Index (c # cs) sep =
     (if prefix sep (c # cs) then Some 0 else map_option Suc (Index cs sep))"

text \<open>\<open>strings.Contains(s, substr)\<close> is \<open>Index(s, substr) >= 0\<close>.\<close>

definition Contains :: "string \<Rightarrow> string \<Rightarrow> bool" where
  "Contains s substr = (Index s substr \<noteq> None)"

text \<open>\<open>strings.HasSuffix\<close>.\<close>

definition HasSuffix :: "string \<Rightarrow> string \<Rightarrow> bool" where
  "HasSuffix s suf = suffix suf s"

lemma Index_bound: "Index s sep = Some m \<Longrightarrow> m + length sep \<le> length s"
proof (induction s arbitrary: m)
  case Nil
  then show ?case by (simp split: if_splits)
next
  case (Cons c cs)
  show ?case
  proof (cases "prefix sep (c # cs)")
    case True
    with Cons.prems have "m = 0" by simp
    with prefix_length_le [OF True] show ?thesis by simp
  next
    case False
    with Cons.prems obtain k where "Index cs sep = Some k" "m = Suc k" by auto
    with Cons.IH show ?thesis by fastforce
  qed
qed

text \<open>\<open>strings.Split(s, sep)\<close>: the pieces of \<open>s\<close> between the successive leftmost
  occurrences of \<open>sep\<close>. With an empty separator Go splits after each UTF-8 sequence,
  which is after each byte on ASCII text; nvidia.go only passes the separator \<open>"-_-"\<close>.\<close>

function Split :: "string \<Rightarrow> string \<Rightarrow> string list" where
  "Split s sep =
     (if sep = [] then map (\<lambda>c. [c]) s
      else (case Index s sep of
              None \<Rightarrow> [s]
            | Some m \<Rightarrow> take m s # Split (drop (m + length sep) s) sep))"
  by pat_completeness auto
termination
proof (relation "measure (\<lambda>(s, sep). length s)")
  show "wf (measure (\<lambda>(s, sep). length s))" by simp
next
  fix s sep :: string and m :: nat
  assume ne: "sep \<noteq> []" and ix: "Index s sep = Some m"
  from Index_bound [OF ix] ne have "0 < length s" by (cases s) auto
  with ne show "((drop (m + length sep) s, sep), (s, sep)) \<in> measure (\<lambda>(s, sep). length s)"
    by (cases sep) auto
qed

declare Split.simps [simp del]

text \<open>The verb \<open>%d\<close> of \<open>fmt.Sprintf\<close> on an unsigned integer: its decimal digits,
  without sign or padding.\<close>

definition digitChar :: "nat \<Rightarrow> char" where
  "digitChar d = ''0123456789'' ! d"

fun FormatUint :: "nat \<Rightarrow> string" where
  "FormatUint n =
     (if n < 10 then [digitChar n] else FormatUint (n div 10) @ [digitChar (n mod 10)])"

declare FormatUint.simps [simp del]

text \<open>\<open>strings.ToLower\<close>. When every byte of \<open>s\<close> is below \<open>utf8.RuneSelf\<close> (0x80), Go
  replaces the letters \<open>A\<close> to \<open>Z\<close> by \<open>a\<close> to \<open>z\<close> and keeps every other byte.
  Otherwise it returns \<open>strings.Map(unicode.ToLower, s)\<close>, which works on code points
  with the tables of package unicode (it maps U+0130 to \<open>i\<close>, for one); that function
  is the parameter \<open>mapUnicode\<close>.\<close>

definition toLowerChar :: "char \<Rightarrow> char" where
  "toLowerChar c =
     (case map_of (zip ''ABCDEFGHIJKLMNOPQRSTUVWXYZ'' ''abcdefghijklmnopqrstuvwxyz'') c of
        Some l \<Rightarrow> l
      | None \<Rightarrow> c)"

definition isASCII :: "char \<Rightarrow> bool" where
  "isASCII c = ((of_char c :: nat) < 128)"

definition ToLower :: "(string \<Rightarrow> string) \<Rightarrow> string \<Rightarrow> string" where
  "ToLower mapUnicode s = (if list_all isASCII s then map toLowerChar s else mapUnicode s)"

text \<open>\<open>strconv.Atoi\<close>: an optional sign, then one or more decimal digits, the value within
  the range of a 64-bit \<open>int\<close>; anything else is an error.\<close>

definition isDigit :: "char \<Rightarrow> bool" where
  "isDigit c = (c \<in> set ''0123456789'')"

fun digitsValue :: "int \<Rightarrow> string \<Rightarrow> int" where
  "digitsValue acc [] = acc"
| "digitsValue acc (c # cs) = digitsValue (acc * 10 + (of_char c - 48)) cs"

definition Atoi :: "string \<Rightarrow> go_error + int" where
  "Atoi s =
     (let neg = (case s of c # _ \<Rightarrow> c = CHR ''-'' | [] \<Rightarrow> False);
          body = (case s of c # cs \<Rightarrow> if c = CHR ''-'' \<or> c = CHR ''+'' then cs else s | [] \<Rightarrow> s)
      in if body = [] then Inl ''invalid syntax''
         else if list_all isDigit body
         then (let v = digitsValue 0 body in
               if neg then (if v \<le> 2 ^ 63 then Inr (- v) else Inl ''value out of range'')
               else (if v < 2 ^ 63 then Inr v else Inl ''value out of range''))
         else Inl ''invalid syntax'')"

section \<open>Fake device identifiers\<close>

text \<open>\<open>generateFakeDeviceID\<close> is \<open>fmt.Sprintf("%s-_-%d", realID, fakeCounter)\<close>;
  \<open>extractRealDeviceID\<close> is \<open>strings.Split(fakeDeviceID, "-_-")[0]\<close>. \<open>Split\<close> with a
  non-empty separator never returns an empty slice, so the index 0 is always in range.\<close>

definition generateFakeDeviceID :: "string \<Rightarrow> uint \<Rightarrow> string" where
  "generateFakeDeviceID realID fakeCounter = realID @ ''-_-'' @ FormatUint (unat fakeCounter)"

definition extractRealDeviceID :: "string \<Rightarrow> string" where
  "extractRealDeviceID fakeDeviceID = hd (Split fakeDeviceID ''-_-'')"

section \<open>What nvidia.go takes from outside the file\<close>

text \<open>A device as the NVML binding describes it (\<open>nvml.Device\<close>): \<open>Memory\<close> is a
  pointer that may be nil, \<open>IsMigEnabled()\<close> and \<open>GetMigDevices()\<close> return a value
  or an error.\<close>

datatype nvml_device = NvmlDevice
  (d_UUID: string)
  (d_Path: string)
  (d_Memory: "uint64 option")
  (d_IsMigEnabled: "go_error + bool")
  (d_GetMigDevices: "go_error + nvml_device list")

text \<open>A fault event (\<open>nvml.Event\<close>); the identifiers are pointers that may be nil.\<close>

record Event =
  e_UUID :: "string option"
  e_GpuInstanceId :: "uint option"
  e_ComputeInstanceId :: "uint option"
  e_Etype :: uint64
  e_Edata :: uint64

text \<open>
  The calls that leave the file, gathered in one record of parameters:
  the process environment (\<open>os.Getenv\<close>); the lower-casing of text that is not ASCII
  (\<open>strings.Map(unicode.ToLower, s)\<close>); the name \<open>envReservedMemPerGPU\<close>, a constant
  of package main that another file declares; the NVML binding (\<open>GetDeviceCount\<close>,
  \<open>NewDevice\<close>, \<open>ParseMigDeviceUUID\<close>, \<open>RegisterEventForDevice\<close>, which returns nil
  or an error); and the outcome of \<open>fmt.Sscanf(d.Path, "/dev/nvidia%d", &id)\<close>.
\<close>

record platform =
  Getenv :: "string \<Rightarrow> string"
  unicodeToLower :: "string \<Rightarrow> string"
  envReservedMemPerGPU :: string
  GetDeviceCount :: "go_error + uint"
  NewDevice :: "uint \<Rightarrow> go_error + nvml_device"
  SscanfPath :: "string \<Rightarrow> go_error + uint"
  ParseMigDeviceUUID :: "string \<Rightarrow> (string \<times> uint \<times> uint) option"
  RegisterEventForDevice :: "string \<Rightarrow> go_error option"

text \<open>\<open>nvml.XidCriticalError\<close> is NVML's event type \<open>nvmlEventTypeXidCriticalError\<close>;
  \<open>pluginapi.Healthy\<close> is the kubelet API's health string.\<close>

definition XidCriticalError :: uint64 where
  "XidCriticalError = 8"

definition Healthy :: string where
  "Healthy = ''Healthy''"

definition envDisableHealthChecks :: string where
  "envDisableHealthChecks = ''DP_DISABLE_HEALTHCHECKS''"

definition allHealthChecks :: string where
  "allHealthChecks = ''xids''"

text \<open>The ways a call can panic: \<open>check(err)\<close>, the two \<open>log.Panicf\<close> of
  \<open>getReservedMemPerGPU\<close>, and reading through a nil pointer.\<close>

datatype panic =
    Fatal go_error
  | CouldNotParse go_error
  | InvalidValue int
  | NilPointerDereference

text \<open>\<open>Device\<close> embeds \<open>pluginapi.Device\<close> (\<open>ID\<close>, \<open>Health\<close>, \<open>Topology\<close>) and adds
  \<open>Path\<close>. \<open>Topology\<close> holds the NUMA node identifiers when it is not nil.\<close>

record Device =
  ID :: string
  Health :: string
  Topology :: "int list option"
  Path :: string

record GpuDeviceManager =
  skipMigEnabledGPUs :: bool

text \<open>\<open>strategy\<close> stands for the method \<open>MatchesResource\<close> of the \<open>MigStrategy\<close>
  the manager holds.\<close>

record MigDeviceManager =
  strategy :: "nvml_device \<Rightarrow> string \<Rightarrow> bool"
  resource :: string

section \<open>Enumeration\<close>

text \<open>The package variable \<open>gpuMemory\<close> is passed in and returned. A panic ends the
  call; the value is \<open>Inl\<close> of the panic then.\<close>

definition getReservedMemPerGPU :: "platform \<Rightarrow> panic + uint" where
  "getReservedMemPerGPU w =
     (case Atoi (Getenv w (envReservedMemPerGPU w)) of
        Inl err \<Rightarrow> Inl (CouldNotParse err)
      | Inr rawPerGPU \<Rightarrow>
          if rawPerGPU > 100 \<or> rawPerGPU \<le> 0 then Inl (InvalidValue rawPerGPU)
          else Inr (word_of_int rawPerGPU))"

lemma unat_succ_less:
  fixes j n :: uint
  assumes "j < n"
  shows "unat (j + 1) = Suc (unat j)"
proof -
  from assms have "unat j < unat n" by (simp add: word_less_nat_alt)
  moreover have "unat n < 2 ^ 64" using unsigned_less [of n] by simp
  ultimately have "unat j + 1 < 2 ^ 64" by arith
  then show ?thesis by (simp add: unat_word_ariths)
qed

text \<open>The innermost loop of both \<open>Devices\<close> methods,
  \<open>for j := uint(0); j < actual; j++ { devs = append(devs, &Device{...}) }\<close>,
  started at \<open>j\<close>.\<close>

function appendFakeDevices :: "nvml_device \<Rightarrow> uint \<Rightarrow> uint \<Rightarrow> Device list \<Rightarrow> Device list" where
  "appendFakeDevices d actual j devs =
     (if j < actual
      then appendFakeDevices d actual (j + 1)
             (devs @ [\<lparr>ID = generateFakeDeviceID (d_UUID d) j, Health = Healthy,
                       Topology = None, Path = d_Path d\<rparr>])
      else devs)"
  by pat_completeness auto
termination
  by (relation "measure (\<lambda>(d, actual, j, devs). unat actual - unat j)")
     (simp_all add: unat_succ_less word_less_nat_alt)

declare appendFakeDevices.simps [simp del]

text \<open>One iteration of the outer loop of \<open>GpuDeviceManager.Devices\<close>, lines 121 to 152,
  on the accelerator of index \<open>i\<close>. The map \<open>realDevNames\<close> is written and never read,
  so only the \<open>Sscanf\<close> that feeds it is kept, for its \<open>check(err)\<close>. The log line 142
  reads \<open>*d.Memory\<close> once more.\<close>

definition gpuDeviceStep ::
  "GpuDeviceManager \<Rightarrow> platform \<Rightarrow> uint \<Rightarrow> uint \<Rightarrow> Device list \<Rightarrow> panic + (uint \<times> Device list)"
where
  "gpuDeviceStep g w gpuMemory i devs =
     (case NewDevice w i of
        Inl err \<Rightarrow> Inl (Fatal err)
      | Inr d \<Rightarrow>
     (case SscanfPath w (d_Path d) of
        Inl err \<Rightarrow> Inl (Fatal err)
      | Inr ident \<Rightarrow>
     (case (if gpuMemory = 0
            then (case d_Memory d of None \<Rightarrow> Inl NilPointerDereference | Some m \<Rightarrow> Inr m)
            else Inr gpuMemory) of
        Inl p \<Rightarrow> Inl p
      | Inr gpuMemory' \<Rightarrow>
     (case d_IsMigEnabled d of
        Inl err \<Rightarrow> Inl (Fatal err)
      | Inr migEnabled \<Rightarrow>
          if migEnabled \<and> skipMigEnabledGPUs g then Inr (gpuMemory', devs)
          else
     (case getReservedMemPerGPU w of
        Inl p \<Rightarrow> Inl p
      | Inr reserve \<Rightarrow>
          (let actual = (gpuMemory' div 100) * (100 - reserve) in
           case d_Memory d of
             None \<Rightarrow> Inl NilPointerDereference
           | Some m \<Rightarrow> Inr (gpuMemory', appendFakeDevices d actual 0 devs)))))))"

text \<open>The outer loop \<open>for i := uint(0); i < n; i++\<close>, started at \<open>i\<close>.\<close>

function gpuDevicesLoop ::
  "GpuDeviceManager \<Rightarrow> platform \<Rightarrow> uint \<Rightarrow> uint \<Rightarrow> uint \<Rightarrow> Device list \<Rightarrow> panic + (uint \<times> Device list)"
where
  "gpuDevicesLoop g w n i gpuMemory devs =
     (if i < n
      then (case gpuDeviceStep g w gpuMemory i devs of
              Inl p \<Rightarrow> Inl p
            | Inr (gpuMemory', devs') \<Rightarrow> gpuDevicesLoop g w n (i + 1) gpuMemory' devs')
      else Inr (gpuMemory, devs))"
  by pat_completeness auto
termination
  by (relation "measure (\<lambda>(g, w, n, i, gpuMemory, devs). unat n - unat i)")
     (simp_all add: unat_succ_less word_less_nat_alt)

declare gpuDevicesLoop.simps [simp del]

text \<open>\<open>GpuDeviceManager.Devices\<close>.\<close>

definition GpuDevices ::
  "GpuDeviceManager \<Rightarrow> platform \<Rightarrow> uint \<Rightarrow> panic + (uint \<times> Device list)"
where
  "GpuDevices g w gpuMemory =
     (case GetDeviceCount w of
        Inl err \<Rightarrow> Inl (Fatal err)
      | Inr n \<Rightarrow> gpuDevicesLoop g w n 0 gpuMemory [])"

text \<open>The loop \<open>for _, mig := range migs\<close> of \<open>MigDeviceManager.Devices\<close>, lines 191 to
  205.\<close>

fun appendMigDevices ::
  "MigDeviceManager \<Rightarrow> nvml_device \<Rightarrow> uint \<Rightarrow> nvml_device list \<Rightarrow> Device list \<Rightarrow> Device list"
where
  "appendMigDevices m d actual [] devs = devs"
| "appendMigDevices m d actual (mig # migs) devs =
     (if \<not> strategy m mig (resource m) then appendMigDevices m d actual migs devs
      else appendMigDevices m d actual migs (appendFakeDevices d actual 0 devs))"

text \<open>One iteration of the outer loop of \<open>MigDeviceManager.Devices\<close>, lines 168 to 205.
  The log line 175 reads \<open>*d.Memory\<close> before the capacity is latched.\<close>

definition migDeviceStep ::
  "MigDeviceManager \<Rightarrow> platform \<Rightarrow> uint \<Rightarrow> uint \<Rightarrow> Device list \<Rightarrow> panic + (uint \<times> Device list)"
where
  "migDeviceStep m w gpuMemory i devs =
     (case NewDevice w i of
        Inl err \<Rightarrow> Inl (Fatal err)
      | Inr d \<Rightarrow>
     (case SscanfPath w (d_Path d) of
        Inl err \<Rightarrow> Inl (Fatal err)
      | Inr ident \<Rightarrow>
     (case d_Memory d of
        None \<Rightarrow> Inl NilPointerDereference
      | Some mem \<Rightarrow>
          (let gpuMemory' = (if gpuMemory = 0 then mem else gpuMemory) in
     (case d_IsMigEnabled d of
        Inl err \<Rightarrow> Inl (Fatal err)
      | Inr migEnabled \<Rightarrow>
          if \<not> migEnabled then Inr (gpuMemory', devs)
          else
     (case d_GetMigDevices d of
        Inl err \<Rightarrow> Inl (Fatal err)
      | Inr migs \<Rightarrow>
     (case getReservedMemPerGPU w of
        Inl p \<Rightarrow> Inl p
      | Inr reserve \<Rightarrow>
          (let actual = gpuMemory' * (1 - (reserve div 100)) in
           Inr (gpuMemory', appendMigDevices m d actual migs devs)))))))))"

function migDevicesLoop ::
  "MigDeviceManager \<Rightarrow> platform \<Rightarrow> uint \<Rightarrow> uint \<Rightarrow> uint \<Rightarrow> Device list \<Rightarrow> panic + (uint \<times> Device list)"
where
  "migDevicesLoop m w n i gpuMemory devs =
     (if i < n
      then (case migDeviceStep m w gpuMemory i devs of
              Inl p \<Rightarrow> Inl p
            | Inr (gpuMemory', devs') \<Rightarrow> migDevicesLoop m w n (i + 1) gpuMemory' devs')
      else Inr (gpuMemory, devs))"
  by pat_completeness auto
termination
  by (relation "measure (\<lambda>(m, w, n, i, gpuMemory, devs). unat n - unat i)")
     (simp_all add: unat_succ_less word_less_nat_alt)

declare migDevicesLoop.simps [simp del]

text \<open>\<open>MigDeviceManager.Devices\<close>.\<close>

definition MigDevices ::
  "MigDeviceManager \<Rightarrow> platform \<Rightarrow> uint \<Rightarrow> panic + (uint \<times> Device list)"
where
  "MigDevices m w gpuMemory =
     (case GetDeviceCount w of
        Inl err \<Rightarrow> Inl (Fatal err)
      | Inr n \<Rightarrow> migDevicesLoop m w n 0 gpuMemory [])"

section \<open>Health monitoring\<close>

text \<open>
  \<open>checkHealth\<close> never returns a value: what it does is what it writes to the channel
  \<open>unhealthy\<close> and what it asks of NVML. The model records both in a \<open>monitor\<close>:
  whether \<open>NewEventSet\<close> was called, whether the deferred \<open>DeleteEventSet\<close> has run,
  the identifiers passed to \<open>RegisterEventForDevice\<close> and the devices sent on
  \<open>unhealthy\<close>, each in order.

  The loop \<open>for { ... }\<close> has no exit but the stop signal. Its model reads a finite list
  of what the successive iterations observe: \<open>Stop\<close> when the \<open>select\<close> finds the stop
  channel ready, \<open>Wait e err\<close> for the pair that \<open>nvml.WaitForEvent\<close> returns otherwise.
  When the list is used up the loop is still running, which is the outcome \<open>Waiting\<close>.
\<close>

record monitor =
  subscribed :: bool
  released :: bool
  registerCalls :: "string list"
  unhealthy :: "Device list"

datatype tick = Stop | Wait Event "go_error option"

datatype outcome = Returned | Panicked panic | Waiting

definition idle :: monitor where
  "idle = \<lparr>subscribed = False, released = False, registerCalls = [], unhealthy = []\<rparr>"

text \<open>The registration loop, lines 250 to 264.\<close>

fun registerDevices :: "platform \<Rightarrow> Device list \<Rightarrow> monitor \<Rightarrow> monitor \<times> panic option" where
  "registerDevices w [] st = (st, None)"
| "registerDevices w (d # ds) st =
     (let ident = extractRealDeviceID (ID d);
          gpu = (case ParseMigDeviceUUID w ident of None \<Rightarrow> ident | Some (gpu, gi, ci) \<Rightarrow> gpu);
          st' = st\<lparr>registerCalls := registerCalls st @ [gpu]\<rparr>
      in case RegisterEventForDevice w gpu of
           None \<Rightarrow> registerDevices w ds st'
         | Some err \<Rightarrow>
             if HasSuffix err ''Not Supported''
             then registerDevices w ds (st'\<lparr>unhealthy := unhealthy st' @ [d]\<rparr>)
             else (st', Some (Fatal err)))"

text \<open>The loop of lines 288 to 290, which sends every device.\<close>

fun sendAll :: "Device list \<Rightarrow> monitor \<Rightarrow> monitor" where
  "sendAll [] st = st"
| "sendAll (d # ds) st = sendAll ds (st\<lparr>unhealthy := unhealthy st @ [d]\<rparr>)"

text \<open>Lines 295 to 303: the identifiers a monitored device is compared by.\<close>

definition deviceKey :: "platform \<Rightarrow> Device \<Rightarrow> string \<times> uint \<times> uint" where
  "deviceKey w d =
     (let ident = extractRealDeviceID (ID d) in
      case ParseMigDeviceUUID w ident of
        None \<Rightarrow> (ident, 0xFFFFFFFF, 0xFFFFFFFF)
      | Some (gpu, gi, ci) \<Rightarrow> (gpu, gi, ci))"

text \<open>The condition of line 305, evaluated from left to right; \<open>*e.GpuInstanceId\<close> and
  \<open>*e.ComputeInstanceId\<close> are read only when the conjuncts before them hold, and
  reading through nil panics.\<close>

definition matchesEvent :: "platform \<Rightarrow> Event \<Rightarrow> string \<Rightarrow> Device \<Rightarrow> panic + bool" where
  "matchesEvent w e uuid d =
     (case deviceKey w d of
        (gpu, gi, ci) \<Rightarrow>
          if gpu \<noteq> uuid then Inr False
          else (case e_GpuInstanceId e of
                  None \<Rightarrow> Inl NilPointerDereference
                | Some egi \<Rightarrow>
                    if gi \<noteq> egi then Inr False
                    else (case e_ComputeInstanceId e of
                            None \<Rightarrow> Inl NilPointerDereference
                          | Some eci \<Rightarrow> Inr (ci = eci))))"

text \<open>The loop of lines 294 to 309.\<close>

fun sendMatching ::
  "platform \<Rightarrow> Event \<Rightarrow> string \<Rightarrow> Device list \<Rightarrow> monitor \<Rightarrow> monitor \<times> panic option"
where
  "sendMatching w e uuid [] st = (st, None)"
| "sendMatching w e uuid (d # ds) st =
     (case matchesEvent w e uuid d of
        Inl p \<Rightarrow> (st, Some p)
      | Inr True \<Rightarrow> sendMatching w e uuid ds (st\<lparr>unhealthy := unhealthy st @ [d]\<rparr>)
      | Inr False \<Rightarrow> sendMatching w e uuid ds st)"

text \<open>The event loop, lines 266 to 310.\<close>

fun eventLoop :: "platform \<Rightarrow> Device list \<Rightarrow> tick list \<Rightarrow> monitor \<Rightarrow> monitor \<times> outcome" where
  "eventLoop w devices [] st = (st, Waiting)"
| "eventLoop w devices (Stop # ticks) st = (st, Returned)"
| "eventLoop w devices (Wait e err # ticks) st =
     (if err \<noteq> None \<and> e_Etype e \<noteq> XidCriticalError then eventLoop w devices ticks st
      else if e_Edata e = 31 \<or> e_Edata e = 43 \<or> e_Edata e = 45 then eventLoop w devices ticks st
      else (case e_UUID e of
              None \<Rightarrow> eventLoop w devices ticks (sendAll devices st)
            | Some uuid \<Rightarrow>
                if length uuid = 0 then eventLoop w devices ticks (sendAll devices st)
                else (case sendMatching w e uuid devices st of
                        (st', Some p) \<Rightarrow> (st', Panicked p)
                      | (st', None) \<Rightarrow> eventLoop w devices ticks st')))"

text \<open>Lines 247 to 310: the subscription, the registrations and the event loop. The
  deferred \<open>DeleteEventSet\<close> runs when the function returns or panics.\<close>

definition watch :: "platform \<Rightarrow> Device list \<Rightarrow> tick list \<Rightarrow> monitor \<times> outcome" where
  "watch w devices ticks =
     (case registerDevices w devices (idle\<lparr>subscribed := True\<rparr>) of
        (st, Some p) \<Rightarrow> (st\<lparr>released := True\<rparr>, Panicked p)
      | (st, None) \<Rightarrow>
          (case eventLoop w devices ticks st of
             (st', Waiting) \<Rightarrow> (st', Waiting)
           | (st', oc) \<Rightarrow> (st'\<lparr>released := True\<rparr>, oc)))"

text \<open>\<open>checkHealth\<close>; the two \<open>CheckHealth\<close> methods only call it.\<close>

definition checkHealth :: "platform \<Rightarrow> Device list \<Rightarrow> tick list \<Rightarrow> monitor \<times> outcome" where
  "checkHealth w devices ticks =
     (let disableHealthChecks = ToLower (unicodeToLower w) (Getenv w envDisableHealthChecks);
          disableHealthChecks = (if disableHealthChecks = ''all'' then allHealthChecks
                                 else disableHealthChecks)
      in if Contains disableHealthChecks ''xids'' then (idle, Returned)
         else watch w devices ticks)"

subsection \<open>What the specification says the enumeration returns\<close>

text \<open>The virtual device of index \<open>j\<close> sliced from the accelerator \<open>d\<close>: fake identifier
  \<open>encode(realID, j)\<close>, healthy, on the accelerator's device node.\<close>

definition virtualDevice :: "nvml_device \<Rightarrow> nat \<Rightarrow> Device" where
  "virtualDevice d j =
     \<lparr>ID = generateFakeDeviceID (d_UUID d) (of_nat j), Health = Healthy,
      Topology = None, Path = d_Path d\<rparr>"

text \<open>The capacity baseline once the accelerator \<open>d\<close> has been seen: it is latched from
  the accelerator's memory while it is still zero, and kept afterwards.\<close>

definition latch :: "uint \<Rightarrow> nvml_device \<Rightarrow> uint" where
  "latch C d = (if C = 0 then (case d_Memory d of Some m \<Rightarrow> m | None \<Rightarrow> 0) else C)"

text \<open>The whole-device count \<open>floor(C / 100) * (100 - R)\<close>, on natural numbers.\<close>

definition usableWhole :: "nat \<Rightarrow> nat \<Rightarrow> nat" where
  "usableWhole C R = (C div 100) * (100 - R)"

text \<open>Whole-device mode: the accelerators in enumeration order; a partition-enabled one
  is left out when the manager skips them, every other one gives \<open>usableWhole\<close> virtual
  devices of indices \<open>0\<close> to \<open>usable - 1\<close>.\<close>

fun wholeDeviceSpec :: "bool \<Rightarrow> nat \<Rightarrow> uint \<Rightarrow> nvml_device list \<Rightarrow> Device list" where
  "wholeDeviceSpec skip R C [] = []"
| "wholeDeviceSpec skip R C (d # ds) =
     (if d_IsMigEnabled d = Inr True \<and> skip then []
      else map (virtualDevice d) [0..<usableWhole (unat (latch C d)) R])
     @ wholeDeviceSpec skip R (latch C d) ds"

text \<open>Partitioned mode, as the code computes it: only partition-enabled accelerators
  count; each partition the selector matches gives one block of virtual devices of the
  parent accelerator, of indices \<open>0\<close> to \<open>count - 1\<close>, where \<open>count\<close> is the value of
  the expression of line 190 on the latched capacity.\<close>

definition migCount :: "uint \<Rightarrow> uint \<Rightarrow> nat" where
  "migCount C R = unat (C * (1 - (R div 100)))"

definition matchingPartitions :: "MigDeviceManager \<Rightarrow> nvml_device \<Rightarrow> nvml_device list" where
  "matchingPartitions m d =
     (case d_GetMigDevices d of
        Inl err \<Rightarrow> []
      | Inr migs \<Rightarrow> filter (\<lambda>mig. strategy m mig (resource m)) migs)"

definition migBlock :: "MigDeviceManager \<Rightarrow> uint \<Rightarrow> uint \<Rightarrow> nvml_device \<Rightarrow> Device list" where
  "migBlock m R C d =
     (if d_IsMigEnabled d = Inr True
      then concat (map (\<lambda>mig. map (virtualDevice d) [0..<migCount C R]) (matchingPartitions m d))
      else [])"

fun partitionedDevices :: "MigDeviceManager \<Rightarrow> uint \<Rightarrow> uint \<Rightarrow> nvml_device list \<Rightarrow> Device list" where
  "partitionedDevices m R C [] = []"
| "partitionedDevices m R C (d # ds) =
     migBlock m R (latch C d) d @ partitionedDevices m R (latch C d) ds"

text \<open>The capacity baseline in force when the accelerator of index \<open>i\<close> is sliced.\<close>

definition baselineAt :: "uint \<Rightarrow> nvml_device list \<Rightarrow> nat \<Rightarrow> uint" where
  "baselineAt C ds i = foldl latch C (take (Suc i) ds)"

text \<open>The accelerators on which no query of the enumeration fails: the device node path
  scans, the memory is reported, the partitioning state can be read and, in partitioned
  mode on a partition-enabled accelerator, the partitions can be listed.\<close>

definition succeeded :: "'e + 'a \<Rightarrow> bool" where
  "succeeded r = (case r of Inl err \<Rightarrow> False | Inr v \<Rightarrow> True)"

definition readableWhole :: "platform \<Rightarrow> nvml_device \<Rightarrow> bool" where
  "readableWhole w d =
     (succeeded (SscanfPath w (d_Path d)) \<and> d_Memory d \<noteq> None \<and> succeeded (d_IsMigEnabled d))"

definition readablePartitioned :: "platform \<Rightarrow> nvml_device \<Rightarrow> bool" where
  "readablePartitioned w d =
     (readableWhole w d \<and>
      (if d_IsMigEnabled d = Inr True then succeeded (d_GetMigDevices d) else True))"

subsection \<open>What monitoring does once it is not disabled\<close>

text \<open>The error, if any, of registering interest for the accelerator of the monitored
  device \<open>d\<close>; whether it is the recoverable one (\<open>Not Supported\<close>) or a fatal one.\<close>

definition registrationError :: "platform \<Rightarrow> Device \<Rightarrow> go_error option" where
  "registrationError w d = RegisterEventForDevice w (fst (deviceKey w d))"

definition notSupported :: "platform \<Rightarrow> Device \<Rightarrow> bool" where
  "notSupported w d =
     (case registrationError w d of None \<Rightarrow> False | Some err \<Rightarrow> HasSuffix err ''Not Supported'')"

definition fatalRegistration :: "platform \<Rightarrow> Device \<Rightarrow> bool" where
  "fatalRegistration w d =
     (case registrationError w d of None \<Rightarrow> False | Some err \<Rightarrow> \<not> HasSuffix err ''Not Supported'')"

text \<open>The monitor when the event loop is entered, every registration having been
  made without a fatal error: the subscription is open, interest is registered for the
  accelerator of every device, in order, and the devices whose accelerator does not
  support health checking have been sent on \<open>unhealthy\<close>.\<close>

definition watching :: "platform \<Rightarrow> Device list \<Rightarrow> monitor" where
  "watching w devices =
     \<lparr>subscribed = True, released = False,
      registerCalls = map (\<lambda>d. fst (deviceKey w d)) devices,
      unhealthy = filter (notSupported w) devices\<rparr>"

text \<open>The subscription is released when the function is left, and not before.\<close>

definition releasedOnExit :: "monitor \<times> outcome \<Rightarrow> monitor \<times> outcome" where
  "releasedOnExit r =
     (case r of
        (st, Waiting) \<Rightarrow> (st, Waiting)
      | (st, oc) \<Rightarrow> (st\<lparr>released := True\<rparr>, oc))"

subsection \<open>A concrete platform for the examples\<close>

text \<open>The parser of the NVML binding for identifiers of the form
  \<open>MIG-GPU-<uuid>/<gi>/<ci>\<close>, as the value of the parameter \<open>ParseMigDeviceUUID\<close>
  in the examples.\<close>

definition nvmlParseMigDeviceUUID :: "string \<Rightarrow> (string \<times> uint \<times> uint) option" where
  "nvmlParseMigDeviceUUID mig =
     (case Index mig ''-'' of
        None \<Rightarrow> None
      | Some m \<Rightarrow>
          if take m mig \<noteq> ''MIG'' then None
          else (let rest = drop (m + 1) mig in
                case Index rest ''/'' of
                  None \<Rightarrow> None
                | Some a \<Rightarrow>
                    (let gpu = take a rest; rest2 = drop (a + 1) rest in
                     case Index rest2 ''/'' of
                       None \<Rightarrow> None
                     | Some b \<Rightarrow>
                         if \<not> prefix ''GPU-'' gpu then None
                         else (case Atoi (take b rest2) of
                                 Inl err \<Rightarrow> None
                               | Inr gi \<Rightarrow>
                                   (case Atoi (drop (b + 1) rest2) of
                                      Inl err \<Rightarrow> None
                                    | Inr ci \<Rightarrow> Some (gpu, word_of_int gi, word_of_int ci))))))"

text \<open>\<open>strings.Map(unicode.ToLower, s)\<close> on the text of the examples, which is made of
  ASCII characters and of U+0130, the bytes \<open>0xC4 0xB0\<close> in UTF-8, which Go lower-cases
  to \<open>i\<close>.\<close>

fun exampleMapToLower :: "string \<Rightarrow> string" where
  "exampleMapToLower [] = []"
| "exampleMapToLower [c] = [toLowerChar c]"
| "exampleMapToLower (c # c' # cs) =
     (if c = CHR 0xC4 \<and> c' = CHR 0xB0 then CHR ''i'' # exampleMapToLower cs
      else toLowerChar c # exampleMapToLower (c' # cs))"

text \<open>A machine with the accelerators \<open>devs\<close> and the environment \<open>env\<close>, on which
  every registration succeeds.\<close>

definition examplePlatform :: "(string \<times> string) list \<Rightarrow> nvml_device list \<Rightarrow> platform" where
  "examplePlatform env devs =
     \<lparr>Getenv = (\<lambda>k. case map_of env k of Some v \<Rightarrow> v | None \<Rightarrow> []),
      unicodeToLower = exampleMapToLower,
      envReservedMemPerGPU = ''RESERVED_MEM_PER_GPU'',
      GetDeviceCount = Inr (of_nat (length devs)),
      NewDevice = (\<lambda>i. if unat i < length devs then Inr (devs ! unat i)
                        else Inl ''Invalid Argument''),
      SscanfPath = (\<lambda>p. if prefix ''/dev/nvidia'' p then Inr 0 else Inl ''input does not match format''),
      ParseMigDeviceUUID = nvmlParseMigDeviceUUID,
      RegisterEventForDevice = (\<lambda>gpu. None)\<rparr>"

definition exampleGpu :: "uint64 \<Rightarrow> nvml_device" where
  "exampleGpu mem = NvmlDevice ''GPU-4af2'' ''/dev/nvidia0'' (Some mem) (Inr False) (Inr [])"

text \<open>A partition-enabled accelerator with the partitions \<open>migs\<close>, two partitions,
  and a manager whose strategy matches every partition.\<close>

definition exampleMigGpu :: "uint64 \<Rightarrow> nvml_device list \<Rightarrow> nvml_device" where
  "exampleMigGpu mem migs = NvmlDevice ''GPU-9c3e'' ''/dev/nvidia0'' (Some mem) (Inr True) (Inr migs)"

definition partitionA :: nvml_device where
  "partitionA = NvmlDevice ''MIG-GPU-9c3e/1/0'' ''/dev/nvidia0'' None (Inr False) (Inr [])"

definition partitionB :: nvml_device where
  "partitionB = NvmlDevice ''MIG-GPU-9c3e/2/0'' ''/dev/nvidia0'' None (Inr False) (Inr [])"

definition exampleMigManager :: MigDeviceManager where
  "exampleMigManager = \<lparr>strategy = (\<lambda>mig res. True), resource = ''nvidia.com/gpu''\<rparr>"

text \<open>A monitored virtual device with the fake identifier \<open>ident\<close>, and a critical
  fault event on the whole accelerator \<open>GPU-4af2\<close> with the Xid code \<open>xid\<close>.\<close>

definition exampleDevice :: "string \<Rightarrow> Device" where
  "exampleDevice ident =
     \<lparr>ID = ident, Health = Healthy, Topology = None, Path = ''/dev/nvidia0''\<rparr>"

definition exampleEvent :: "uint64 \<Rightarrow> Event" where
  "exampleEvent xid =
     \<lparr>e_UUID = Some ''GPU-4af2'', e_GpuInstanceId = Some 0xFFFFFFFF,
      e_ComputeInstanceId = Some 0xFFFFFFFF, e_Etype = XidCriticalError, e_Edata = xid\<rparr>"

section \<open>Properties of the fake identifiers\<close>

lemma Split_nonempty: "sep \<noteq> [] \<Longrightarrow> Split s sep \<noteq> []"
  by (simp add: Split.simps [of s] split: option.splits)

lemma Index_append_sep:
  assumes "\<not> Contains r ''-_-''" and "\<not> HasSuffix r ''-_''"
  shows "Index (r @ ''-_-'' @ t) ''-_-'' = Some (length r)"
  using assms
proof (induction r)
  case Nil
  show ?case by simp
next
  case (Cons c cs)
  from Cons.prems(1) have np: "\<not> prefix ''-_-'' (c # cs)" and nc: "\<not> Contains cs ''-_-''"
    by (auto simp: Contains_def split: if_splits)
  from Cons.prems(2) have ns: "\<not> HasSuffix cs ''-_''"
    by (simp add: HasSuffix_def suffix_Cons)
  have "\<not> prefix ''-_-'' (c # cs @ ''-_-'' @ t)"
  proof (cases cs)
    case Nil
    then show ?thesis by auto
  next
    case (Cons x xs)
    note c1 = this
    show ?thesis
    proof (cases xs)
      case Nil
      with c1 Cons.prems(2) show ?thesis by (auto simp: HasSuffix_def)
    next
      case (Cons y ys)
      with c1 np show ?thesis by auto
    qed
  qed
  with Cons.IH [OF nc ns] show ?case by simp
qed

lemma extractRealDeviceID_at:
  assumes "Index s ''-_-'' = Some m"
  shows "extractRealDeviceID s = take m s"
  using assms by (simp add: extractRealDeviceID_def Split.simps [of s])

lemma extractRealDeviceID_generate:
  assumes "\<not> Contains realID ''-_-''" and "\<not> HasSuffix realID ''-_''"
  shows "extractRealDeviceID (generateFakeDeviceID realID j) = realID"
  unfolding generateFakeDeviceID_def
  using extractRealDeviceID_at [OF Index_append_sep [OF assms]] by simp

text \<open>
  C3, as amended. For every real identifier that does not contain the separator \<open>-_-\<close>
  and does not end in \<open>-_\<close>, and every index, decoding the fake identifier built from
  them gives the real identifier back.
\<close>

theorem extract_generate_roundtrip:
  assumes "\<not> Contains realID ''-_-''" and "\<not> HasSuffix realID ''-_''"
  shows "extractRealDeviceID (generateFakeDeviceID realID index) = realID"
  using assms by (rule extractRealDeviceID_generate)

theorem extract_generate_roundtrip_witness:
  "\<not> Contains ''GPU-7a-b2'' ''-_-'' \<and> \<not> HasSuffix ''GPU-7a-b2'' ''-_'' \<and>
   extractRealDeviceID (generateFakeDeviceID ''GPU-7a-b2'' 10) = ''GPU-7a-b2''"
proof -
  have a: "\<not> Contains ''GPU-7a-b2'' ''-_-''" by (simp add: Contains_def)
  have b: "\<not> HasSuffix ''GPU-7a-b2'' ''-_''" by (simp add: HasSuffix_def suffix_def)
  from a b extract_generate_roundtrip [OF a b, of 10] show ?thesis by simp
qed

text \<open>
  C3 as stated fails: the identifier \<open>GPU-_\<close> does not contain the separator, yet its
  last two characters and the first character of the separator form an earlier
  occurrence of the separator in the fake identifier \<open>GPU-_-_-0\<close>, which decodes to
  \<open>GPU\<close>.
\<close>

theorem extract_generate_counterexample:
  "\<not> Contains ''GPU-_'' ''-_-'' \<and>
   extractRealDeviceID (generateFakeDeviceID ''GPU-_'' 0) \<noteq> ''GPU-_''"
  by (simp add: Contains_def extractRealDeviceID_def generateFakeDeviceID_def
      Split.simps [of "''GPU-_-_-0''"] FormatUint.simps [of 0] digitChar_def)

section \<open>Whole-device enumeration\<close>

lemma appendFakeDevices_eq:
  "appendFakeDevices d actual j devs = devs @ map (virtualDevice d) [unat j..<unat actual]"
proof (induction d actual j devs rule: appendFakeDevices.induct)
  case (1 d actual j devs)
  show ?case
  proof (cases "j < actual")
    case True
    then have lt: "unat j < unat actual" by (simp add: word_less_nat_alt)
    have "appendFakeDevices d actual j devs =
            appendFakeDevices d actual (j + 1)
              (devs @ [\<lparr>ID = generateFakeDeviceID (d_UUID d) j, Health = Healthy,
                        Topology = None, Path = d_Path d\<rparr>])"
      using True by (simp add: appendFakeDevices.simps [of d actual j])
    also have "\<dots> = (devs @ [virtualDevice d (unat j)])
                      @ map (virtualDevice d) [Suc (unat j)..<unat actual]"
      using "1.IH" [OF True] by (simp add: unat_succ_less [OF True] virtualDevice_def)
    finally show ?thesis using lt by (simp add: upt_conv_Cons)
  next
    case False
    then have "unat actual \<le> unat j" by (simp add: word_less_nat_alt)
    with False show ?thesis by (simp add: appendFakeDevices.simps [of d actual j])
  qed
qed

lemma getReservedMemPerGPU_range:
  assumes "getReservedMemPerGPU w = Inr R"
  shows "0 < unat R \<and> unat R \<le> 100"
proof -
  from assms obtain raw :: int where a: "Atoi (Getenv w (envReservedMemPerGPU w)) = Inr raw"
    by (auto simp: getReservedMemPerGPU_def split: sum.splits)
  with assms have r: "0 < raw" "raw \<le> 100" "R = word_of_int raw"
    by (auto simp: getReservedMemPerGPU_def split: if_splits)
  then have "unat R = nat raw"
    by (simp add: unat_eq_nat_uint uint_word_of_int)
  with r show ?thesis by simp
qed

lemma usable_no_wrap:
  fixes C R :: uint
  assumes "unat R \<le> 100"
  shows "unat ((C div 100) * (100 - R)) = usableWhole (unat C) (unat R)"
proof -
  from assms have le: "R \<le> 100" by (simp add: word_le_nat_alt)
  have a: "unat (C div 100) = unat C div 100" by (simp add: unat_div)
  have b: "unat (100 - R) = 100 - unat R" using le by (simp add: unat_sub)
  have "unat C div 100 * (100 - unat R) \<le> unat C div 100 * 100"
    by (rule mult_le_mono2) simp
  also have "\<dots> \<le> unat C" by simp
  also have "\<dots> < 2 ^ 64" using unsigned_less [of C] by simp
  finally have "unat (C div 100) * unat (100 - R) < 2 ^ LENGTH(64)"
    by (simp add: a b)
  then have "unat ((C div 100) * (100 - R)) = unat (C div 100) * unat (100 - R)"
    by (simp only: unat_mult_lem)
  then show ?thesis by (simp add: a b usableWhole_def)
qed

lemma gpuDeviceStep_eq:
  assumes step: "gpuDeviceStep g w C i devs = Inr (C', devs')"
      and dev: "NewDevice w i = Inr d"
      and res: "getReservedMemPerGPU w = Inr R"
  shows "C' = latch C d"
    and "devs' = devs @ (if d_IsMigEnabled d = Inr True \<and> skipMigEnabledGPUs g then []
                         else map (virtualDevice d) [0..<usableWhole (unat (latch C d)) (unat R)])"
proof -
  from getReservedMemPerGPU_range [OF res] have R: "unat R \<le> 100" by simp
  from step dev res show "C' = latch C d"
    by (auto simp: gpuDeviceStep_def latch_def Let_def split: sum.splits option.splits if_splits)
  from step dev res
  show "devs' = devs @ (if d_IsMigEnabled d = Inr True \<and> skipMigEnabledGPUs g then []
                         else map (virtualDevice d) [0..<usableWhole (unat (latch C d)) (unat R)])"
    by (auto simp: gpuDeviceStep_def latch_def Let_def appendFakeDevices_eq usable_no_wrap [OF R]
             split: sum.splits option.splits if_splits)
qed

lemma upt_word_Cons:
  fixes i n :: uint
  assumes "i < n"
  shows "[unat i..<unat n] = unat i # [unat (i + 1)..<unat n]"
  using assms by (simp add: unat_succ_less [OF assms] upt_conv_Cons word_less_nat_alt)

lemma gpuDevicesLoop_eq:
  assumes "gpuDevicesLoop g w n i C devs = Inr (C', out)"
      and "map (\<lambda>k. NewDevice w (of_nat k)) [unat i..<unat n] = map Inr ds"
      and "getReservedMemPerGPU w = Inr R"
  shows "out = devs @ wholeDeviceSpec (skipMigEnabledGPUs g) (unat R) C ds"
  using assms
proof (induction g w n i C devs arbitrary: ds rule: gpuDevicesLoop.induct)
  case (1 g w n i C devs)
  show ?case
  proof (cases "i < n")
    case True
    from "1.prems"(2) upt_word_Cons [OF True]
    obtain d ds' where ds: "ds = d # ds'" and d: "NewDevice w i = Inr d"
      and rest: "map (\<lambda>k. NewDevice w (of_nat k)) [unat (i + 1)..<unat n] = map Inr ds'"
      by (cases ds) auto
    from "1.prems"(1) True obtain C1 devs1
      where step: "gpuDeviceStep g w C i devs = Inr (C1, devs1)"
        and loop: "gpuDevicesLoop g w n (i + 1) C1 devs1 = Inr (C', out)"
      by (auto simp: gpuDevicesLoop.simps [of g w n i] split: sum.splits)
    from "1.IH" [OF True step refl loop rest "1.prems"(3)]
    have "out = devs1 @ wholeDeviceSpec (skipMigEnabledGPUs g) (unat R) C1 ds'" .
    with gpuDeviceStep_eq [OF step d "1.prems"(3)] ds show ?thesis by simp
  next
    case False
    then have "unat n \<le> unat i" by (simp add: word_less_nat_alt)
    with "1.prems"(2) have "ds = []" by simp
    with False "1.prems"(1) show ?thesis by (simp add: gpuDevicesLoop.simps [of g w n i])
  qed
qed

text \<open>
  C1. In whole-device mode, when \<open>Devices()\<close> returns, its result is the concatenation,
  in enumeration order, of one block per accelerator that is not skipped: with \<open>C\<close> the
  capacity baseline latched when the accelerator is reached and \<open>R\<close> the reservation
  percentage, which lies in \<open>(0, 100]\<close>, the block has exactly
  \<open>floor(C / 100) * (100 - R)\<close> records, the one of index \<open>j\<close> healthy and with fake
  identifier \<open>encode(realID, j)\<close>.
\<close>

theorem GpuDevices_emits:
  assumes "GpuDevices g w C0 = Inr (C1, devs)"
      and "GetDeviceCount w = Inr n"
      and "map (\<lambda>k. NewDevice w (of_nat k)) [0..<unat n] = map Inr ds"
      and "getReservedMemPerGPU w = Inr R"
  shows "devs = wholeDeviceSpec (skipMigEnabledGPUs g) (unat R) C0 ds
         \<and> 0 < unat R \<and> unat R \<le> 100"
proof -
  from assms(1,2) have "gpuDevicesLoop g w n 0 C0 [] = Inr (C1, devs)"
    by (simp add: GpuDevices_def)
  from gpuDevicesLoop_eq [OF this _ assms(4), of ds] assms(3)
  have "devs = wholeDeviceSpec (skipMigEnabledGPUs g) (unat R) C0 ds" by simp
  with getReservedMemPerGPU_range [OF assms(4)] show ?thesis by simp
qed

lemma example_enumerated:
  "map (\<lambda>k. NewDevice (examplePlatform env [d]) (of_nat k)) [0..<unat (1 :: uint)] = map Inr [d]"
  by (simp add: examplePlatform_def)

text \<open>The example of C1 with capacity 8000 and reservation 10: 7200 devices, with the
  identifiers \<open>GPU-4af2-_-0\<close> to \<open>GPU-4af2-_-7199\<close>.\<close>

theorem GpuDevices_emits_witness:
  "GpuDevices \<lparr>skipMigEnabledGPUs = True\<rparr>
     (examplePlatform [(''RESERVED_MEM_PER_GPU'', ''10'')] [exampleGpu 8000]) 0
   = Inr (8000, map (virtualDevice (exampleGpu 8000)) [0..<7200])
   \<and> ID (virtualDevice (exampleGpu 8000) 0) = ''GPU-4af2-_-0''
   \<and> ID (virtualDevice (exampleGpu 8000) 7199) = ''GPU-4af2-_-7199''"
proof -
  let ?w = "examplePlatform [(''RESERVED_MEM_PER_GPU'', ''10'')] [exampleGpu 8000]"
  let ?g = "\<lparr>skipMigEnabledGPUs = True\<rparr>"
  have res: "getReservedMemPerGPU ?w = Inr 10"
    by (simp add: getReservedMemPerGPU_def examplePlatform_def Atoi_def isDigit_def)
  have cnt: "GetDeviceCount ?w = Inr 1"
    by (simp add: examplePlatform_def)
  have dev: "NewDevice ?w 0 = Inr (exampleGpu 8000)"
    by (simp add: examplePlatform_def)
  have scan: "SscanfPath ?w (d_Path (exampleGpu 8000)) = Inr 0"
    by (simp add: examplePlatform_def exampleGpu_def)
  have gpu: "d_Memory (exampleGpu 8000) = Some 8000" "d_IsMigEnabled (exampleGpu 8000) = Inr False"
    by (simp_all add: exampleGpu_def)
  have step: "gpuDeviceStep ?g ?w 0 0 [] = Inr (8000, appendFakeDevices (exampleGpu 8000) 7200 0 [])"
    by (simp add: gpuDeviceStep_def res dev scan gpu)
  have run: "GpuDevices ?g ?w 0 = Inr (8000, appendFakeDevices (exampleGpu 8000) 7200 0 [])"
    by (simp add: GpuDevices_def cnt gpuDevicesLoop.simps [of _ _ 1 0] gpuDevicesLoop.simps [of _ _ 1 1] step)
  have us: "usableWhole 8000 10 = 7200"
    by (simp add: usableWhole_def)
  have "appendFakeDevices (exampleGpu 8000) 7200 0 []
        = wholeDeviceSpec True (unat (10 :: uint)) 0 [exampleGpu 8000]"
    using GpuDevices_emits [OF run cnt example_enumerated res] by simp
  also have "\<dots> = map (virtualDevice (exampleGpu 8000)) [0..<7200]"
    by (simp add: latch_def exampleGpu_def us del: upt_rec_numeral)
  finally have "GpuDevices ?g ?w 0 = Inr (8000, map (virtualDevice (exampleGpu 8000)) [0..<7200])"
    using run by simp
  moreover have "ID (virtualDevice (exampleGpu 8000) 0) = ''GPU-4af2-_-0''"
    by (simp add: virtualDevice_def exampleGpu_def generateFakeDeviceID_def FormatUint.simps digitChar_def)
  moreover have "ID (virtualDevice (exampleGpu 8000) 7199) = ''GPU-4af2-_-7199''"
    by (simp add: virtualDevice_def exampleGpu_def generateFakeDeviceID_def FormatUint.simps digitChar_def)
  ultimately show ?thesis by simp
qed

text \<open>The other example of C1: with capacity 80 and reservation 25 the count is
  \<open>floor(80 / 100) * 75 = 0\<close>, and no device is emitted.\<close>

lemma GpuDevices_capacity_80_reserve_25:
  "GpuDevices \<lparr>skipMigEnabledGPUs = True\<rparr>
     (examplePlatform [(''RESERVED_MEM_PER_GPU'', ''25'')] [exampleGpu 80]) 0
   = Inr (80, [])"
proof -
  let ?w = "examplePlatform [(''RESERVED_MEM_PER_GPU'', ''25'')] [exampleGpu 80]"
  let ?g = "\<lparr>skipMigEnabledGPUs = True\<rparr>"
  have res: "getReservedMemPerGPU ?w = Inr 25"
    by (simp add: getReservedMemPerGPU_def examplePlatform_def Atoi_def isDigit_def)
  have cnt: "GetDeviceCount ?w = Inr 1"
    by (simp add: examplePlatform_def)
  have dev: "NewDevice ?w 0 = Inr (exampleGpu 80)"
    by (simp add: examplePlatform_def)
  have scan: "SscanfPath ?w (d_Path (exampleGpu 80)) = Inr 0"
    by (simp add: examplePlatform_def exampleGpu_def)
  have gpu: "d_Memory (exampleGpu 80) = Some 80" "d_IsMigEnabled (exampleGpu 80) = Inr False"
    by (simp_all add: exampleGpu_def)
  have step: "gpuDeviceStep ?g ?w 0 0 [] = Inr (80, [])"
    by (simp add: gpuDeviceStep_def res dev scan gpu appendFakeDevices.simps [of _ 0 0])
  show ?thesis
    by (simp add: GpuDevices_def cnt gpuDevicesLoop.simps [of _ _ 1 0] gpuDevicesLoop.simps [of _ _ 1 1] step)
qed

subsection \<open>When the whole-device enumeration returns\<close>

text \<open>\<open>GpuDeviceManager.Devices\<close> returns, and does not panic, when the device count and
  every accelerator can be read and the reservation percentage is valid.\<close>

lemma gpuDeviceStep_returns:
  assumes "NewDevice w i = Inr d" and "readableWhole w d" and "getReservedMemPerGPU w = Inr R"
  shows "\<exists>devs'. gpuDeviceStep g w C i devs = Inr (latch C d, devs')"
  using assms
  by (auto simp: gpuDeviceStep_def readableWhole_def succeeded_def latch_def Let_def
           split: sum.splits option.splits)

lemma gpuDevicesLoop_returns:
  assumes "map (\<lambda>k. NewDevice w (of_nat k)) [unat i..<unat n] = map Inr ds"
      and "list_all (readableWhole w) ds"
      and "getReservedMemPerGPU w = Inr R"
  shows "\<exists>out. gpuDevicesLoop g w n i C devs = Inr (foldl latch C ds, out)"
  using assms
proof (induction g w n i C devs arbitrary: ds rule: gpuDevicesLoop.induct)
  case (1 g w n i C devs)
  show ?case
  proof (cases "i < n")
    case True
    from "1.prems"(1) upt_word_Cons [OF True]
    obtain d ds' where ds: "ds = d # ds'" and d: "NewDevice w i = Inr d"
      and rest: "map (\<lambda>k. NewDevice w (of_nat k)) [unat (i + 1)..<unat n] = map Inr ds'"
      by (cases ds) auto
    from "1.prems"(2) ds have rd: "readableWhole w d" and rds: "list_all (readableWhole w) ds'"
      by simp_all
    from gpuDeviceStep_returns [OF d rd "1.prems"(3)]
    obtain devs1 where step: "gpuDeviceStep g w C i devs = Inr (latch C d, devs1)" by blast
    from "1.IH" [OF True step refl rest rds "1.prems"(3)]
    obtain out where "gpuDevicesLoop g w n (i + 1) (latch C d) devs1
                      = Inr (foldl latch (latch C d) ds', out)" by blast
    with True step ds show ?thesis
      by (simp add: gpuDevicesLoop.simps [of g w n i])
  next
    case False
    then have "unat n \<le> unat i" by (simp add: word_less_nat_alt)
    with "1.prems"(1) have "ds = []" by simp
    with False show ?thesis by (simp add: gpuDevicesLoop.simps [of g w n i])
  qed
qed

lemma GpuDevices_returns:
  assumes "GetDeviceCount w = Inr n"
      and "map (\<lambda>k. NewDevice w (of_nat k)) [0..<unat n] = map Inr ds"
      and "list_all (readableWhole w) ds"
      and "getReservedMemPerGPU w = Inr R"
  shows "\<exists>devs. GpuDevices g w C0 = Inr (foldl latch C0 ds, devs)"
  using gpuDevicesLoop_returns [of w 0 n ds R g C0 "[]"] assms
  by (simp add: GpuDevices_def)

section \<open>Partitioned enumeration\<close>

lemma appendMigDevices_eq:
  "appendMigDevices m d actual migs devs =
     devs @ concat (map (\<lambda>mig. map (virtualDevice d) [0..<unat actual])
                        (filter (\<lambda>mig. strategy m mig (resource m)) migs))"
  by (induction migs arbitrary: devs) (simp_all add: appendFakeDevices_eq)

lemma migDeviceStep_eq:
  assumes step: "migDeviceStep m w C i devs = Inr (C', devs')"
      and dev: "NewDevice w i = Inr d"
      and res: "getReservedMemPerGPU w = Inr R"
  shows "C' = latch C d" and "devs' = devs @ migBlock m R (latch C d) d"
proof -
  from step dev res show "C' = latch C d"
    by (auto simp: migDeviceStep_def latch_def Let_def split: sum.splits option.splits if_splits)
  from step dev res show "devs' = devs @ migBlock m R (latch C d) d"
    by (auto simp: migDeviceStep_def latch_def Let_def migBlock_def migCount_def
                   matchingPartitions_def appendMigDevices_eq
             split: sum.splits option.splits if_splits)
qed

lemma migDevicesLoop_eq:
  assumes "migDevicesLoop m w n i C devs = Inr (C', out)"
      and "map (\<lambda>k. NewDevice w (of_nat k)) [unat i..<unat n] = map Inr ds"
      and "getReservedMemPerGPU w = Inr R"
  shows "out = devs @ partitionedDevices m R C ds"
  using assms
proof (induction m w n i C devs arbitrary: ds rule: migDevicesLoop.induct)
  case (1 m w n i C devs)
  show ?case
  proof (cases "i < n")
    case True
    from "1.prems"(2) upt_word_Cons [OF True]
    obtain d ds' where ds: "ds = d # ds'" and d: "NewDevice w i = Inr d"
      and rest: "map (\<lambda>k. NewDevice w (of_nat k)) [unat (i + 1)..<unat n] = map Inr ds'"
      by (cases ds) auto
    from "1.prems"(1) True obtain C1 devs1
      where step: "migDeviceStep m w C i devs = Inr (C1, devs1)"
        and loop: "migDevicesLoop m w n (i + 1) C1 devs1 = Inr (C', out)"
      by (auto simp: migDevicesLoop.simps [of m w n i] split: sum.splits)
    from "1.IH" [OF True step refl loop rest "1.prems"(3)]
    have "out = devs1 @ partitionedDevices m R C1 ds'" .
    with migDeviceStep_eq [OF step d "1.prems"(3)] ds show ?thesis by simp
  next
    case False
    then have "unat n \<le> unat i" by (simp add: word_less_nat_alt)
    with "1.prems"(2) have "ds = []" by simp
    with False "1.prems"(1) show ?thesis by (simp add: migDevicesLoop.simps [of m w n i])
  qed
qed

lemma MigDevices_eq:
  assumes "MigDevices m w C0 = Inr (C1, devs)"
      and "GetDeviceCount w = Inr n"
      and "map (\<lambda>k. NewDevice w (of_nat k)) [0..<unat n] = map Inr ds"
      and "getReservedMemPerGPU w = Inr R"
  shows "devs = partitionedDevices m R C0 ds"
proof -
  from assms(1,2) have "migDevicesLoop m w n 0 C0 [] = Inr (C1, devs)"
    by (simp add: MigDevices_def)
  from migDevicesLoop_eq [OF this _ assms(4), of ds] assms(3) show ?thesis by simp
qed

lemma migCount_value:
  assumes "0 < unat R" and "unat R \<le> 100"
  shows "migCount C R = (if unat R = 100 then 0 else unat C)"
proof (cases "unat R = 100")
  case True
  have "R = of_nat (unat R)" by simp
  with True have "R = 100" by simp
  then show ?thesis by (simp add: migCount_def)
next
  case False
  with assms have "unat R div 100 = 0" by simp
  then have "unat (R div 100) = 0" by (simp add: unat_div)
  then have "R div 100 = 0" by (simp add: unat_eq_zero)
  with False show ?thesis by (simp add: migCount_def)
qed

lemma partitionedDevices_block:
  assumes "i < length ds"
  shows "\<exists>pre post. partitionedDevices m R C ds
           = pre @ migBlock m R (baselineAt C ds i) (ds ! i) @ post"
  using assms
proof (induction ds arbitrary: C i)
  case Nil
  then show ?case by simp
next
  case (Cons d ds)
  show ?case
  proof (cases i)
    case 0
    then show ?thesis by (auto simp: baselineAt_def)
  next
    case (Suc k)
    with Cons.prems have "k < length ds" by simp
    from Cons.IH [OF this, of "latch C d"] obtain pre post
      where "partitionedDevices m R (latch C d) ds
               = pre @ migBlock m R (baselineAt (latch C d) ds k) (ds ! k) @ post" by blast
    then have "partitionedDevices m R C (d # ds)
               = (migBlock m R (latch C d) d @ pre)
                 @ migBlock m R (baselineAt C (d # ds) i) ((d # ds) ! i) @ post"
      using Suc by (simp add: baselineAt_def)
    then show ?thesis by blast
  qed
qed

lemma repeated_block_not_distinct:
  assumes "2 \<le> length ys" and "xs \<noteq> []"
  shows "\<not> distinct (map f (concat (map (\<lambda>y. xs) ys)))"
proof -
  from assms(1) obtain a b rest where "ys = a # b # rest"
    by (cases ys; cases "tl ys") auto
  moreover from assms(2) obtain x xs' where "xs = x # xs'" by (cases xs) auto
  ultimately show ?thesis by auto
qed

text \<open>
  C10. In partitioned mode, when \<open>Devices()\<close> returns and some accelerator has
  partitioning enabled, two or more partitions that match the resource class, and a
  per-partition count that is not zero, the fake identifiers of the returned sequence
  are not pairwise different: every block is built from the parent accelerator's
  identifier with the index starting at 0 again.
\<close>

theorem MigDevices_duplicate_identifiers:
  assumes "MigDevices m w C0 = Inr (C1, devs)"
      and "GetDeviceCount w = Inr n"
      and "map (\<lambda>k. NewDevice w (of_nat k)) [0..<unat n] = map Inr ds"
      and "getReservedMemPerGPU w = Inr R"
      and "i < length ds"
      and "d_IsMigEnabled (ds ! i) = Inr True"
      and "2 \<le> length (matchingPartitions m (ds ! i))"
      and "migCount (baselineAt C0 ds i) R \<noteq> 0"
  shows "\<not> distinct (map ID devs)"
proof -
  let ?block = "migBlock m R (baselineAt C0 ds i) (ds ! i)"
  from MigDevices_eq [OF assms(1-4)] partitionedDevices_block [OF assms(5)]
  obtain pre post where devs: "devs = pre @ ?block @ post" by metis
  from assms(8) have "map (virtualDevice (ds ! i)) [0..<migCount (baselineAt C0 ds i) R] \<noteq> []"
    by simp
  from repeated_block_not_distinct [OF assms(7) this, of ID] assms(6)
  have "\<not> distinct (map ID ?block)" by (simp add: migBlock_def)
  with devs show ?thesis by simp
qed

lemma example_mig_step:
  assumes "getReservedMemPerGPU (examplePlatform env [exampleMigGpu mem migs]) = Inr R"
  shows "MigDevices exampleMigManager (examplePlatform env [exampleMigGpu mem migs]) 0
         = Inr (mem, concat (map (\<lambda>mig. map (virtualDevice (exampleMigGpu mem migs))
                                    [0..<unat (mem * (1 - R div 100))]) migs))"
proof -
  let ?d = "exampleMigGpu mem migs"
  let ?w = "examplePlatform env [?d]"
  have cnt: "GetDeviceCount ?w = Inr 1" by (simp add: examplePlatform_def)
  have dev: "NewDevice ?w 0 = Inr ?d" by (simp add: examplePlatform_def)
  have scan: "SscanfPath ?w (d_Path ?d) = Inr 0"
    by (simp add: examplePlatform_def exampleMigGpu_def)
  have gpu: "d_Memory ?d = Some mem" "d_IsMigEnabled ?d = Inr True" "d_GetMigDevices ?d = Inr migs"
    by (simp_all add: exampleMigGpu_def)
  have all: "filter (\<lambda>mig. strategy exampleMigManager mig (resource exampleMigManager)) migs = migs"
    by (simp add: exampleMigManager_def)
  have step: "migDeviceStep exampleMigManager ?w 0 0 []
              = Inr (mem, concat (map (\<lambda>mig. map (virtualDevice ?d)
                                         [0..<unat (mem * (1 - R div 100))]) migs))"
    by (simp add: migDeviceStep_def assms dev scan gpu appendMigDevices_eq all)
  show ?thesis
    by (simp add: MigDevices_def cnt migDevicesLoop.simps [of _ _ 1 0]
                  migDevicesLoop.simps [of _ _ 1 1] step)
qed

lemma example_reserved:
  "getReservedMemPerGPU (examplePlatform [(''RESERVED_MEM_PER_GPU'', ''10'')] ds) = Inr 10"
  "getReservedMemPerGPU (examplePlatform [(''RESERVED_MEM_PER_GPU'', ''25'')] ds) = Inr 25"
  "getReservedMemPerGPU (examplePlatform [(''RESERVED_MEM_PER_GPU'', ''50'')] ds) = Inr 50"
  by (simp_all add: getReservedMemPerGPU_def examplePlatform_def Atoi_def isDigit_def)

text \<open>
  C2 on the code. The claim asks for \<open>capacityBaseline * (1 - reservationPercent / 100)\<close>
  devices per matching partition, 7200 for capacity 8000 and reservation 10. Line 190
  divides unsigned integers, so \<open>reserve / 100\<close> is 0 for every reservation below 100
  (\<open>migCount_value\<close>), and the accelerator below, with one matching partition, gives
  8000 devices.
\<close>

theorem MigDevices_reservation_10_capacity_8000:
  "MigDevices exampleMigManager
     (examplePlatform [(''RESERVED_MEM_PER_GPU'', ''10'')] [exampleMigGpu 8000 [partitionA]]) 0
   = Inr (8000, map (virtualDevice (exampleMigGpu 8000 [partitionA])) [0..<8000])
   \<and> length (map (virtualDevice (exampleMigGpu 8000 [partitionA])) [0..<8000]) = 8000"
  by (simp add: example_mig_step [OF example_reserved(1)] del: upt_rec_numeral)

theorem MigDevices_duplicate_identifiers_witness:
  "MigDevices exampleMigManager
     (examplePlatform [(''RESERVED_MEM_PER_GPU'', ''50'')] [exampleMigGpu 2 [partitionA, partitionB]]) 0
   = Inr (2, [virtualDevice (exampleMigGpu 2 [partitionA, partitionB]) 0,
              virtualDevice (exampleMigGpu 2 [partitionA, partitionB]) 1,
              virtualDevice (exampleMigGpu 2 [partitionA, partitionB]) 0,
              virtualDevice (exampleMigGpu 2 [partitionA, partitionB]) 1])
   \<and> \<not> distinct (map ID [virtualDevice (exampleMigGpu 2 [partitionA, partitionB]) 0,
              virtualDevice (exampleMigGpu 2 [partitionA, partitionB]) 1,
              virtualDevice (exampleMigGpu 2 [partitionA, partitionB]) 0,
              virtualDevice (exampleMigGpu 2 [partitionA, partitionB]) 1])"
proof -
  let ?d = "exampleMigGpu 2 [partitionA, partitionB]"
  let ?w = "examplePlatform [(''RESERVED_MEM_PER_GPU'', ''50'')] [?d]"
  let ?devs = "[virtualDevice ?d 0, virtualDevice ?d 1, virtualDevice ?d 0, virtualDevice ?d 1]"
  have two: "[0..<2] = [0, Suc 0]" by (simp add: upt_rec)
  have run: "MigDevices exampleMigManager ?w 0 = Inr (2, ?devs)"
    by (simp add: example_mig_step [OF example_reserved(3)] two)
  have cnt: "GetDeviceCount ?w = Inr 1" by (simp add: examplePlatform_def)
  have i: "0 < length [?d]" by simp
  have mig: "d_IsMigEnabled ([?d] ! 0) = Inr True" by (simp add: exampleMigGpu_def)
  have parts: "2 \<le> length (matchingPartitions exampleMigManager ([?d] ! 0))"
    by (simp add: matchingPartitions_def exampleMigGpu_def exampleMigManager_def)
  have nz: "migCount (baselineAt 0 [?d] 0) 50 \<noteq> 0"
    by (simp add: migCount_def baselineAt_def latch_def exampleMigGpu_def)
  from MigDevices_duplicate_identifiers
         [OF run cnt example_enumerated example_reserved(3) i mig parts nz] run
  show ?thesis by simp
qed

subsection \<open>When the partitioned enumeration returns\<close>

text \<open>\<open>MigDeviceManager.Devices\<close> returns under the same conditions, the partitions of
  every partition-enabled accelerator being listed without error.\<close>

lemma migDeviceStep_returns:
  assumes "NewDevice w i = Inr d" and "readablePartitioned w d"
      and "getReservedMemPerGPU w = Inr R"
  shows "\<exists>devs'. migDeviceStep m w C i devs = Inr (latch C d, devs')"
  using assms
  by (auto simp: migDeviceStep_def readablePartitioned_def readableWhole_def succeeded_def
                 latch_def Let_def
           split: sum.splits option.splits if_splits)

lemma migDevicesLoop_returns:
  assumes "map (\<lambda>k. NewDevice w (of_nat k)) [unat i..<unat n] = map Inr ds"
      and "list_all (readablePartitioned w) ds"
      and "getReservedMemPerGPU w = Inr R"
  shows "\<exists>out. migDevicesLoop m w n i C devs = Inr (foldl latch C ds, out)"
  using assms
proof (induction m w n i C devs arbitrary: ds rule: migDevicesLoop.induct)
  case (1 m w n i C devs)
  show ?case
  proof (cases "i < n")
    case True
    from "1.prems"(1) upt_word_Cons [OF True]
    obtain d ds' where ds: "ds = d # ds'" and d: "NewDevice w i = Inr d"
      and rest: "map (\<lambda>k. NewDevice w (of_nat k)) [unat (i + 1)..<unat n] = map Inr ds'"
      by (cases ds) auto
    from "1.prems"(2) ds have rd: "readablePartitioned w d"
      and rds: "list_all (readablePartitioned w) ds'"
      by simp_all
    from migDeviceStep_returns [OF d rd "1.prems"(3)]
    obtain devs1 where step: "migDeviceStep m w C i devs = Inr (latch C d, devs1)" by blast
    from "1.IH" [OF True step refl rest rds "1.prems"(3)]
    obtain out where "migDevicesLoop m w n (i + 1) (latch C d) devs1
                      = Inr (foldl latch (latch C d) ds', out)" by blast
    with True step ds show ?thesis
      by (simp add: migDevicesLoop.simps [of m w n i])
  next
    case False
    then have "unat n \<le> unat i" by (simp add: word_less_nat_alt)
    with "1.prems"(1) have "ds = []" by simp
    with False show ?thesis by (simp add: migDevicesLoop.simps [of m w n i])
  qed
qed

lemma MigDevices_returns:
  assumes "GetDeviceCount w = Inr n"
      and "map (\<lambda>k. NewDevice w (of_nat k)) [0..<unat n] = map Inr ds"
      and "list_all (readablePartitioned w) ds"
      and "getReservedMemPerGPU w = Inr R"
  shows "\<exists>devs. MigDevices m w C0 = Inr (foldl latch C0 ds, devs)"
  using migDevicesLoop_returns [of w 0 n ds R m C0 "[]"] assms
  by (simp add: MigDevices_def)

section \<open>Health monitoring: one event\<close>

lemma sendAll_eq: "sendAll ds st = st\<lparr>unhealthy := unhealthy st @ ds\<rparr>"
  by (induction ds arbitrary: st) simp_all

lemma sendMatching_eq:
  assumes "e_GpuInstanceId e = Some g" and "e_ComputeInstanceId e = Some c"
  shows "sendMatching w e uuid ds st =
           (st\<lparr>unhealthy := unhealthy st @ filter (\<lambda>d. deviceKey w d = (uuid, g, c)) ds\<rparr>, None)"
proof (induction ds arbitrary: st)
  case Nil
  show ?case by simp
next
  case (Cons d ds)
  obtain gpu gi ci where k: "deviceKey w d = (gpu, gi, ci)" by (cases "deviceKey w d") auto
  have m: "matchesEvent w e uuid d = Inr (deviceKey w d = (uuid, g, c))"
    using assms k by (auto simp: matchesEvent_def)
  show ?case by (simp add: m Cons.IH)
qed

lemma subscribed_sendMatching: "subscribed (fst (sendMatching w e uuid ds st)) = subscribed st"
  by (induction ds arbitrary: st) (auto split: sum.splits bool.splits)

lemma subscribed_eventLoop: "subscribed (fst (eventLoop w devices ticks st)) = subscribed st"
proof (induction w devices ticks st rule: eventLoop.induct)
  case (3 w devices e err ticks st)
  show ?case
  proof (cases "sendMatching w e (the (e_UUID e)) devices st")
    case (Pair st' po)
    with subscribed_sendMatching [of w e "the (e_UUID e)" devices st]
    have s: "subscribed st' = subscribed st" by simp
    from 3 Pair s show ?thesis
      by (auto simp: sendAll_eq split: option.splits)
  qed
qed simp_all

lemma subscribed_registerDevices: "subscribed (fst (registerDevices w ds st)) = subscribed st"
  by (induction ds arbitrary: st) (auto simp: Let_def split: option.splits)

lemma subscribed_watch: "subscribed (fst (watch w devices ticks))"
proof -
  obtain st po where r: "registerDevices w devices (idle\<lparr>subscribed := True\<rparr>) = (st, po)"
    by (cases "registerDevices w devices (idle\<lparr>subscribed := True\<rparr>)") auto
  with subscribed_registerDevices [of w devices "idle\<lparr>subscribed := True\<rparr>"]
  have s: "subscribed st" by simp
  obtain st' oc where l: "eventLoop w devices ticks st = (st', oc)"
    by (cases "eventLoop w devices ticks st") auto
  with subscribed_eventLoop [of w devices ticks st] s have "subscribed st'" by simp
  with r s l show ?thesis
    by (auto simp: watch_def split: option.splits outcome.splits)
qed

text \<open>
  C7. An event whose error code \<open>Edata\<close> is 31, 43 or 45 changes nothing: whatever the
  monitored devices, the wait error and the state of the monitor, the loop goes on
  with the next iteration from the same state, so nothing is sent on \<open>unhealthy\<close>
  for that event.
\<close>

theorem application_codes_ignored:
  assumes "e_Edata e = 31 \<or> e_Edata e = 43 \<or> e_Edata e = 45"
  shows "eventLoop w devices (Wait e err # ticks) st = eventLoop w devices ticks st"
  using assms by auto

theorem application_codes_ignored_witness:
  "eventLoop (examplePlatform [] []) [exampleDevice ''GPU-4af2-_-0'']
     [Wait (exampleEvent 43) None, Stop] (idle\<lparr>subscribed := True\<rparr>)
   = (idle\<lparr>subscribed := True\<rparr>, Returned)"
proof -
  have "e_Edata (exampleEvent 43) = 31 \<or> e_Edata (exampleEvent 43) = 43
        \<or> e_Edata (exampleEvent 43) = 45"
    by (simp add: exampleEvent_def)
  then have "eventLoop (examplePlatform [] []) [exampleDevice ''GPU-4af2-_-0'']
               [Wait (exampleEvent 43) None, Stop] (idle\<lparr>subscribed := True\<rparr>)
             = eventLoop (examplePlatform [] []) [exampleDevice ''GPU-4af2-_-0'']
               [Stop] (idle\<lparr>subscribed := True\<rparr>)"
    by (rule application_codes_ignored)
  also have "\<dots> = (idle\<lparr>subscribed := True\<rparr>, Returned)" by simp
  finally show ?thesis .
qed

text \<open>
  C4, as amended. An event that \<open>WaitForEvent\<close> returns together with an error and
  whose type is not the critical-error class changes nothing: nothing is sent on
  \<open>unhealthy\<close> for it and the loop goes on with the next iteration.
\<close>

theorem wait_error_noncritical_ignored:
  assumes "err \<noteq> None" and "e_Etype e \<noteq> XidCriticalError"
  shows "eventLoop w devices (Wait e err # ticks) st = eventLoop w devices ticks st"
  using assms by simp

theorem wait_error_noncritical_ignored_witness:
  "eventLoop (examplePlatform [] []) [exampleDevice ''GPU-4af2-_-0'']
     [Wait ((exampleEvent 0)\<lparr>e_UUID := None, e_Etype := 0\<rparr>) (Some ''Timeout''), Stop]
     (idle\<lparr>subscribed := True\<rparr>)
   = (idle\<lparr>subscribed := True\<rparr>, Returned)"
proof -
  have a: "Some ''Timeout'' \<noteq> (None :: go_error option)" by simp
  have b: "e_Etype ((exampleEvent 0)\<lparr>e_UUID := None, e_Etype := 0\<rparr>) \<noteq> XidCriticalError"
    by (simp add: XidCriticalError_def)
  from a b have "eventLoop (examplePlatform [] []) [exampleDevice ''GPU-4af2-_-0'']
               [Wait ((exampleEvent 0)\<lparr>e_UUID := None, e_Etype := 0\<rparr>) (Some ''Timeout''), Stop]
               (idle\<lparr>subscribed := True\<rparr>)
             = eventLoop (examplePlatform [] []) [exampleDevice ''GPU-4af2-_-0'']
               [Stop] (idle\<lparr>subscribed := True\<rparr>)"
    by (rule wait_error_noncritical_ignored)
  also have "\<dots> = (idle\<lparr>subscribed := True\<rparr>, Returned)" by simp
  finally show ?thesis .
qed

text \<open>
  C4 as stated fails: the guard of line 274 needs both the error and the other type.
  An event of type 1, which is not the critical-error class, returned without error
  and without originating identifier, has every monitored device sent on \<open>unhealthy\<close>.
\<close>

theorem noncritical_event_counterexample:
  "e_Etype ((exampleEvent 0)\<lparr>e_UUID := None, e_Etype := 1\<rparr>) \<noteq> XidCriticalError \<and>
   eventLoop (examplePlatform [] []) [exampleDevice ''GPU-4af2-_-0'']
     [Wait ((exampleEvent 0)\<lparr>e_UUID := None, e_Etype := 1\<rparr>) None, Stop] idle
   = (idle\<lparr>unhealthy := [exampleDevice ''GPU-4af2-_-0'']\<rparr>, Returned)"
  by (simp add: XidCriticalError_def exampleEvent_def idle_def)

text \<open>
  C6, as amended. A critical fault event whose error code is not 31, 43 or 45 and
  that carries no originating identifier (nil or empty) has the monitored devices sent
  on \<open>unhealthy\<close>, each entry once and in order, and the loop goes on with the next
  iteration.
\<close>

theorem fleet_wide_event:
  assumes "e_Etype e = XidCriticalError"
      and "e_Edata e \<noteq> 31" and "e_Edata e \<noteq> 43" and "e_Edata e \<noteq> 45"
      and "e_UUID e = None \<or> e_UUID e = Some []"
  shows "eventLoop w devices (Wait e err # ticks) st
         = eventLoop w devices ticks (st\<lparr>unhealthy := unhealthy st @ devices\<rparr>)"
  using assms by (auto simp: sendAll_eq)

theorem fleet_wide_event_witness:
  "eventLoop (examplePlatform [] [])
     [exampleDevice ''GPU-4af2-_-0'', exampleDevice ''GPU-9c3e-_-0'']
     [Wait ((exampleEvent 79)\<lparr>e_UUID := None\<rparr>) None, Stop] idle
   = (idle\<lparr>unhealthy := [exampleDevice ''GPU-4af2-_-0'', exampleDevice ''GPU-9c3e-_-0'']\<rparr>,
      Returned)"
proof -
  let ?e = "(exampleEvent 79)\<lparr>e_UUID := None\<rparr>"
  have a: "e_Etype ?e = XidCriticalError" by (simp add: exampleEvent_def)
  have b: "e_Edata ?e \<noteq> 31" "e_Edata ?e \<noteq> 43" "e_Edata ?e \<noteq> 45"
    by (simp_all add: exampleEvent_def)
  have c: "e_UUID ?e = None \<or> e_UUID ?e = Some []" by simp
  let ?devs = "[exampleDevice ''GPU-4af2-_-0'', exampleDevice ''GPU-9c3e-_-0'']"
  from a b c have "eventLoop (examplePlatform [] []) ?devs [Wait ?e None, Stop] idle
             = eventLoop (examplePlatform [] []) ?devs [Stop]
                 (idle\<lparr>unhealthy := unhealthy idle @ ?devs\<rparr>)"
    by (rule fleet_wide_event)
  also have "\<dots> = (idle\<lparr>unhealthy := ?devs\<rparr>, Returned)" by (simp add: idle_def)
  finally show ?thesis .
qed

text \<open>
  C6 as stated fails: a critical fault event without originating identifier whose code
  is 31 is dropped by line 281 before the identifier is looked at, and no device is
  sent.
\<close>

theorem fleet_wide_event_counterexample:
  "e_Etype ((exampleEvent 31)\<lparr>e_UUID := None\<rparr>) = XidCriticalError \<and>
   e_UUID ((exampleEvent 31)\<lparr>e_UUID := None\<rparr>) = None \<and>
   eventLoop (examplePlatform [] []) [exampleDevice ''GPU-4af2-_-0'']
     [Wait ((exampleEvent 31)\<lparr>e_UUID := None\<rparr>) None, Stop] idle
   = (idle, Returned)"
  by (simp add: exampleEvent_def)

lemma example_keys:
  "deviceKey (examplePlatform env ds) (exampleDevice ''GPU-4af2-_-0'')
     = (''GPU-4af2'', 0xFFFFFFFF, 0xFFFFFFFF)"
  "deviceKey (examplePlatform env ds) (exampleDevice ''GPU-4af2-_-1'')
     = (''GPU-4af2'', 0xFFFFFFFF, 0xFFFFFFFF)"
  "deviceKey (examplePlatform env ds) (exampleDevice ''GPU-9c3e-_-0'')
     = (''GPU-9c3e'', 0xFFFFFFFF, 0xFFFFFFFF)"
  "deviceKey (examplePlatform env ds) (exampleDevice ''MIG-GPU-4af2/1/0-_-0'')
     = (''GPU-4af2'', 1, 0)"
  by (simp_all add: deviceKey_def examplePlatform_def exampleDevice_def extractRealDeviceID_def
        Split.simps [of "_ # _"] nvmlParseMigDeviceUUID_def Atoi_def isDigit_def)

text \<open>
  C5, as amended. A critical fault event whose error code is not 31, 43 or 45 and that
  carries a non-empty originating identifier \<open>X\<close>, a partition identifier \<open>g\<close> and a
  sub-partition identifier \<open>c\<close> has sent on \<open>unhealthy\<close>, in order, exactly the
  monitored devices whose identifiers of comparison are \<open>(X, g, c)\<close>; then the loop
  goes on. For a device whose decoded identifier is not a partition UUID this means:
  the decoded identifier is \<open>X\<close> and the event carries \<open>0xFFFFFFFF\<close> as partition and
  as sub-partition identifier.
\<close>

theorem event_on_accelerator:
  assumes "e_Etype e = XidCriticalError"
      and "e_Edata e \<noteq> 31" and "e_Edata e \<noteq> 43" and "e_Edata e \<noteq> 45"
      and "e_UUID e = Some X" and "X \<noteq> []"
      and "e_GpuInstanceId e = Some g" and "e_ComputeInstanceId e = Some c"
  shows "eventLoop w devices (Wait e err # ticks) st
         = eventLoop w devices ticks
             (st\<lparr>unhealthy := unhealthy st @ filter (\<lambda>d. deviceKey w d = (X, g, c)) devices\<rparr>)
         \<and> (\<forall>d. ParseMigDeviceUUID w (extractRealDeviceID (ID d)) = None \<longrightarrow>
                (deviceKey w d = (X, g, c))
                = (extractRealDeviceID (ID d) = X \<and> g = 0xFFFFFFFF \<and> c = 0xFFFFFFFF))"
proof
  from assms show "eventLoop w devices (Wait e err # ticks) st
         = eventLoop w devices ticks
             (st\<lparr>unhealthy := unhealthy st @ filter (\<lambda>d. deviceKey w d = (X, g, c)) devices\<rparr>)"
    by (simp add: sendMatching_eq)
  show "\<forall>d. ParseMigDeviceUUID w (extractRealDeviceID (ID d)) = None \<longrightarrow>
                (deviceKey w d = (X, g, c))
                = (extractRealDeviceID (ID d) = X \<and> g = 0xFFFFFFFF \<and> c = 0xFFFFFFFF)"
    by (auto simp: deviceKey_def)
qed

theorem event_on_accelerator_witness:
  "eventLoop (examplePlatform [] [])
     [exampleDevice ''GPU-4af2-_-0'', exampleDevice ''GPU-9c3e-_-0'',
      exampleDevice ''MIG-GPU-4af2/1/0-_-0'', exampleDevice ''GPU-4af2-_-1'']
     [Wait (exampleEvent 79) None, Stop] idle
   = (idle\<lparr>unhealthy := [exampleDevice ''GPU-4af2-_-0'', exampleDevice ''GPU-4af2-_-1'']\<rparr>,
      Returned)"
proof -
  let ?w = "examplePlatform [] []"
  let ?devs = "[exampleDevice ''GPU-4af2-_-0'', exampleDevice ''GPU-9c3e-_-0'',
      exampleDevice ''MIG-GPU-4af2/1/0-_-0'', exampleDevice ''GPU-4af2-_-1'']"
  let ?e = "exampleEvent 79"
  have a: "e_Etype ?e = XidCriticalError" by (simp add: exampleEvent_def)
  have b: "e_Edata ?e \<noteq> 31" "e_Edata ?e \<noteq> 43" "e_Edata ?e \<noteq> 45"
    by (simp_all add: exampleEvent_def)
  have c: "e_UUID ?e = Some ''GPU-4af2''" "''GPU-4af2'' \<noteq> []"
    "e_GpuInstanceId ?e = Some 0xFFFFFFFF" "e_ComputeInstanceId ?e = Some 0xFFFFFFFF"
    by (simp_all add: exampleEvent_def)
  from event_on_accelerator [OF a b c, of ?w ?devs None "[Stop]" idle]
  have "eventLoop ?w ?devs [Wait ?e None, Stop] idle
        = eventLoop ?w ?devs [Stop]
            (idle\<lparr>unhealthy := unhealthy idle
               @ filter (\<lambda>d. deviceKey ?w d = (''GPU-4af2'', 0xFFFFFFFF, 0xFFFFFFFF)) ?devs\<rparr>)"
    by (rule conjunct1)
  also have "\<dots> = (idle\<lparr>unhealthy := [exampleDevice ''GPU-4af2-_-0'',
                                        exampleDevice ''GPU-4af2-_-1'']\<rparr>, Returned)"
    by (simp add: example_keys idle_def)
  finally show ?thesis .
qed

text \<open>
  C5 as stated fails: the monitored device \<open>GPU-4af2-_-0\<close> decodes to \<open>GPU-4af2\<close>,
  which is not a partition UUID, and a critical fault event on \<open>GPU-4af2\<close> with code 79
  that carries the partition identifiers 1 and 0 does not have it sent: line 305
  compares the partition identifiers too.
\<close>

theorem event_on_accelerator_counterexample:
  "extractRealDeviceID (ID (exampleDevice ''GPU-4af2-_-0'')) = ''GPU-4af2'' \<and>
   ParseMigDeviceUUID (examplePlatform [] []) ''GPU-4af2'' = None \<and>
   e_UUID ((exampleEvent 79)\<lparr>e_GpuInstanceId := Some 1, e_ComputeInstanceId := Some 0\<rparr>)
     = Some ''GPU-4af2'' \<and>
   eventLoop (examplePlatform [] []) [exampleDevice ''GPU-4af2-_-0'']
     [Wait ((exampleEvent 79)\<lparr>e_GpuInstanceId := Some 1, e_ComputeInstanceId := Some 0\<rparr>) None,
      Stop] idle
   = (idle, Returned)"
proof -
  have k: "matchesEvent (examplePlatform [] [])
             ((exampleEvent 79)\<lparr>e_GpuInstanceId := Some 1, e_ComputeInstanceId := Some 0\<rparr>)
             ''GPU-4af2'' (exampleDevice ''GPU-4af2-_-0'') = Inr False"
    by (simp add: matchesEvent_def example_keys exampleEvent_def)
  have f: "e_Edata ((exampleEvent 79)\<lparr>e_GpuInstanceId := Some 1, e_ComputeInstanceId := Some 0\<rparr>) = 79"
    "e_UUID ((exampleEvent 79)\<lparr>e_GpuInstanceId := Some 1, e_ComputeInstanceId := Some 0\<rparr>)
       = Some ''GPU-4af2''"
    by (simp_all add: exampleEvent_def)
  have x: "extractRealDeviceID (ID (exampleDevice ''GPU-4af2-_-0'')) = ''GPU-4af2''"
    by (simp add: exampleDevice_def extractRealDeviceID_def Split.simps [of "_ # _"])
  have p: "ParseMigDeviceUUID (examplePlatform [] []) ''GPU-4af2'' = None"
    by (simp add: examplePlatform_def nvmlParseMigDeviceUUID_def)
  have "eventLoop (examplePlatform [] []) [exampleDevice ''GPU-4af2-_-0'']
     [Wait ((exampleEvent 79)\<lparr>e_GpuInstanceId := Some 1, e_ComputeInstanceId := Some 0\<rparr>) None,
      Stop] idle = (idle, Returned)"
    by (simp add: k f)
  with x p f show ?thesis by simp
qed

section \<open>Health monitoring: the disable directive\<close>

lemma registered_identifier:
  "(case ParseMigDeviceUUID w (extractRealDeviceID (ID d)) of
      None \<Rightarrow> extractRealDeviceID (ID d)
    | Some (gpu, gi, ci) \<Rightarrow> gpu) = fst (deviceKey w d)"
  by (simp add: deviceKey_def Let_def split: option.splits prod.splits)

lemma registerDevices_eq:
  assumes "list_all (\<lambda>d. \<not> fatalRegistration w d) ds"
  shows "registerDevices w ds st =
           (st\<lparr>registerCalls := registerCalls st @ map (\<lambda>d. fst (deviceKey w d)) ds,
               unhealthy := unhealthy st @ filter (notSupported w) ds\<rparr>, None)"
  using assms
proof (induction ds arbitrary: st)
  case Nil
  show ?case by simp
next
  case (Cons d ds)
  from Cons.prems have nf: "\<not> fatalRegistration w d"
    and rest: "list_all (\<lambda>d. \<not> fatalRegistration w d) ds" by simp_all
  show ?case
  proof (cases "registrationError w d")
    case None
    then have "\<not> notSupported w d" by (simp add: notSupported_def)
    with None show ?thesis
      by (simp add: Let_def registered_identifier Cons.IH [OF rest]
                    registrationError_def [symmetric])
  next
    case (Some err)
    with nf have "HasSuffix err ''Not Supported''" and "notSupported w d"
      by (simp_all add: fatalRegistration_def notSupported_def)
    with Some show ?thesis
      by (simp add: Let_def registered_identifier Cons.IH [OF rest]
                    registrationError_def [symmetric])
  qed
qed

lemma registerDevices_fatal:
  assumes "\<not> list_all (\<lambda>d. \<not> fatalRegistration w d) ds"
  shows "\<exists>st' err. registerDevices w ds st = (st', Some (Fatal err))"
  using assms
proof (induction ds arbitrary: st)
  case Nil
  then show ?case by simp
next
  case (Cons d ds)
  show ?case
  proof (cases "fatalRegistration w d")
    case True
    then obtain err where "registrationError w d = Some err" "\<not> HasSuffix err ''Not Supported''"
      by (auto simp: fatalRegistration_def split: option.splits)
    then show ?thesis
      by (simp add: Let_def registered_identifier registrationError_def [symmetric])
  next
    case False
    with Cons.prems have rest: "\<not> list_all (\<lambda>d. \<not> fatalRegistration w d) ds" by simp
    from False show ?thesis
      using Cons.IH [OF rest]
      by (auto simp: Let_def registered_identifier registrationError_def [symmetric]
                     fatalRegistration_def split: option.splits)
  qed
qed

lemma watch_runs_loop:
  assumes "list_all (\<lambda>d. \<not> fatalRegistration w d) devices"
  shows "watch w devices ticks = releasedOnExit (eventLoop w devices ticks (watching w devices))"
proof -
  have "registerDevices w devices (idle\<lparr>subscribed := True\<rparr>) = (watching w devices, None)"
    by (simp add: registerDevices_eq [OF assms] watching_def idle_def)
  then show ?thesis by (simp add: watch_def releasedOnExit_def)
qed

lemma watch_panics:
  assumes "\<not> list_all (\<lambda>d. \<not> fatalRegistration w d) devices"
  shows "\<exists>err. snd (watch w devices ticks) = Panicked (Fatal err)"
proof -
  from registerDevices_fatal [OF assms, of "idle\<lparr>subscribed := True\<rparr>"]
  obtain st' err where "registerDevices w devices (idle\<lparr>subscribed := True\<rparr>)
                        = (st', Some (Fatal err))" by blast
  then show ?thesis by (simp add: watch_def)
qed

lemma ToLower_all_xids: "ToLower f ''all'' = ''all''" "ToLower f ''xids'' = ''xids''"
  by (simp_all add: ToLower_def isASCII_def toLowerChar_def)

text \<open>
  C8. When \<open>DP_DISABLE_HEALTHCHECKS\<close> is \<open>all\<close> or \<open>xids\<close>, \<open>checkHealth\<close> returns at
  once for every device set: no event set is created, no registration is made and
  nothing is sent on \<open>unhealthy\<close>.
\<close>

theorem disabled_all_or_xids:
  assumes "Getenv w envDisableHealthChecks = ''all'' \<or> Getenv w envDisableHealthChecks = ''xids''"
  shows "checkHealth w devices ticks
         = (\<lparr>subscribed = False, released = False, registerCalls = [], unhealthy = []\<rparr>, Returned)"
  using assms
  by (auto simp: checkHealth_def idle_def allHealthChecks_def ToLower_all_xids Contains_def)

theorem disabled_all_or_xids_witness:
  "checkHealth (examplePlatform [(''DP_DISABLE_HEALTHCHECKS'', ''all'')] [])
     [exampleDevice ''GPU-4af2-_-0''] [Wait ((exampleEvent 79)\<lparr>e_UUID := None\<rparr>) None, Stop]
   = (\<lparr>subscribed = False, released = False, registerCalls = [], unhealthy = []\<rparr>, Returned)
   \<and> checkHealth (examplePlatform [(''DP_DISABLE_HEALTHCHECKS'', ''xids'')] [])
     [exampleDevice ''GPU-4af2-_-0''] [Wait ((exampleEvent 79)\<lparr>e_UUID := None\<rparr>) None, Stop]
   = (\<lparr>subscribed = False, released = False, registerCalls = [], unhealthy = []\<rparr>, Returned)"
proof -
  have a: "Getenv (examplePlatform [(''DP_DISABLE_HEALTHCHECKS'', ''all'')] []) envDisableHealthChecks
           = ''all''"
    by (simp add: examplePlatform_def envDisableHealthChecks_def)
  have b: "Getenv (examplePlatform [(''DP_DISABLE_HEALTHCHECKS'', ''xids'')] []) envDisableHealthChecks
           = ''xids''"
    by (simp add: examplePlatform_def envDisableHealthChecks_def)
  from a have a': "Getenv (examplePlatform [(''DP_DISABLE_HEALTHCHECKS'', ''all'')] []) envDisableHealthChecks = ''all''
     \<or> Getenv (examplePlatform [(''DP_DISABLE_HEALTHCHECKS'', ''all'')] []) envDisableHealthChecks = ''xids''" ..
  from b have b': "Getenv (examplePlatform [(''DP_DISABLE_HEALTHCHECKS'', ''xids'')] []) envDisableHealthChecks = ''all''
     \<or> Getenv (examplePlatform [(''DP_DISABLE_HEALTHCHECKS'', ''xids'')] []) envDisableHealthChecks = ''xids''" ..
  show ?thesis
    by (rule conjI) (rule disabled_all_or_xids [OF a'], rule disabled_all_or_xids [OF b'])
qed

text \<open>
  C9. The directive is matched on its lower-cased value by substring. When the
  lower-cased value contains \<open>xids\<close>, \<open>checkHealth\<close> returns at once as if disabled.
  When it is not \<open>all\<close> and does not contain \<open>xids\<close>, monitoring proceeds: the event
  set is created; when no registration fails fatally, interest is registered for the
  accelerator of every device, the devices without support for health checking are
  sent on \<open>unhealthy\<close> and the event loop runs on the events from there, the event set
  being released when the loop is left; when a registration fails fatally, the call
  panics with that error.
\<close>

theorem disable_directive_substring:
  "(Contains (ToLower (unicodeToLower w) (Getenv w envDisableHealthChecks)) ''xids''
      \<longrightarrow> checkHealth w devices ticks = (idle, Returned))
   \<and> (ToLower (unicodeToLower w) (Getenv w envDisableHealthChecks) \<noteq> ''all''
        \<and> \<not> Contains (ToLower (unicodeToLower w) (Getenv w envDisableHealthChecks)) ''xids''
      \<longrightarrow> subscribed (fst (checkHealth w devices ticks))
          \<and> (list_all (\<lambda>d. \<not> fatalRegistration w d) devices
               \<longrightarrow> checkHealth w devices ticks
                   = releasedOnExit (eventLoop w devices ticks (watching w devices)))
          \<and> (\<not> list_all (\<lambda>d. \<not> fatalRegistration w d) devices
               \<longrightarrow> (\<exists>err. snd (checkHealth w devices ticks) = Panicked (Fatal err))))"
proof -
  have xids: "Contains ''xids'' ''xids''" by (simp add: Contains_def)
  have all: "\<not> Contains ''all'' ''xids''" by (simp add: Contains_def)
  show ?thesis
    using xids all watch_runs_loop [of w devices ticks] watch_panics [of w devices ticks]
    by (auto simp: checkHealth_def Let_def allHealthChecks_def subscribed_watch)
qed

theorem disable_directive_substring_witness:
  "checkHealth (examplePlatform [(''DP_DISABLE_HEALTHCHECKS'', ''noXIDSplease'')] [])
     [exampleDevice ''GPU-4af2-_-0''] [Wait (exampleEvent 79) None, Stop] = (idle, Returned)
   \<and> checkHealth (examplePlatform
        [(''DP_DISABLE_HEALTHCHECKS'', [CHR ''X'', CHR 0xC4, CHR 0xB0, CHR ''D'', CHR ''S''])] [])
     [exampleDevice ''GPU-4af2-_-0''] [Wait (exampleEvent 79) None, Stop] = (idle, Returned)
   \<and> checkHealth (examplePlatform [(''DP_DISABLE_HEALTHCHECKS'', ''al'')] [])
     [exampleDevice ''GPU-4af2-_-0'', exampleDevice ''GPU-9c3e-_-0'']
     [Wait (exampleEvent 79) None, Stop]
     = (\<lparr>subscribed = True, released = True, registerCalls = [''GPU-4af2'', ''GPU-9c3e''],
         unhealthy = [exampleDevice ''GPU-4af2-_-0'']\<rparr>, Returned)"
proof -
  let ?w1 = "examplePlatform [(''DP_DISABLE_HEALTHCHECKS'', ''noXIDSplease'')] []"
  let ?w2 = "examplePlatform
        [(''DP_DISABLE_HEALTHCHECKS'', [CHR ''X'', CHR 0xC4, CHR 0xB0, CHR ''D'', CHR ''S''])] []"
  let ?w3 = "examplePlatform [(''DP_DISABLE_HEALTHCHECKS'', ''al'')] []"
  let ?one = "[exampleDevice ''GPU-4af2-_-0'']"
  let ?two = "[exampleDevice ''GPU-4af2-_-0'', exampleDevice ''GPU-9c3e-_-0'']"
  let ?ticks = "[Wait (exampleEvent 79) None, Stop]"
  have l1: "ToLower (unicodeToLower ?w1) (Getenv ?w1 envDisableHealthChecks) = ''noxidsplease''"
    by (simp add: examplePlatform_def envDisableHealthChecks_def ToLower_def isASCII_def
                  toLowerChar_def)
  have l2: "ToLower (unicodeToLower ?w2) (Getenv ?w2 envDisableHealthChecks) = ''xids''"
    by (simp add: examplePlatform_def envDisableHealthChecks_def ToLower_def isASCII_def
                  toLowerChar_def)
  have l3: "ToLower (unicodeToLower ?w3) (Getenv ?w3 envDisableHealthChecks) = ''al''"
    by (simp add: examplePlatform_def envDisableHealthChecks_def ToLower_def isASCII_def
                  toLowerChar_def)
  have c1: "Contains (ToLower (unicodeToLower ?w1) (Getenv ?w1 envDisableHealthChecks)) ''xids''"
    by (simp add: l1 Contains_def)
  have c2: "Contains (ToLower (unicodeToLower ?w2) (Getenv ?w2 envDisableHealthChecks)) ''xids''"
    by (simp add: l2 Contains_def)
  have c3: "ToLower (unicodeToLower ?w3) (Getenv ?w3 envDisableHealthChecks) \<noteq> ''all''
            \<and> \<not> Contains (ToLower (unicodeToLower ?w3) (Getenv ?w3 envDisableHealthChecks)) ''xids''"
    by (simp add: l3 Contains_def)
  have reg: "registrationError ?w3 d = None" for d
    by (simp add: registrationError_def examplePlatform_def)
  have nf: "list_all (\<lambda>d. \<not> fatalRegistration ?w3 d) ?two"
    by (simp add: fatalRegistration_def reg)
  have ev: "e_Edata (exampleEvent 79) = 79" "e_UUID (exampleEvent 79) = Some ''GPU-4af2''"
    "e_GpuInstanceId (exampleEvent 79) = Some 0xFFFFFFFF"
    "e_ComputeInstanceId (exampleEvent 79) = Some 0xFFFFFFFF"
    by (simp_all add: exampleEvent_def)
  from disable_directive_substring [of ?w1 ?one ?ticks] c1
  have r1: "checkHealth ?w1 ?one ?ticks = (idle, Returned)" by blast
  from disable_directive_substring [of ?w2 ?one ?ticks] c2
  have r2: "checkHealth ?w2 ?one ?ticks = (idle, Returned)" by blast
  from disable_directive_substring [of ?w3 ?two ?ticks] c3 nf
  have "checkHealth ?w3 ?two ?ticks = releasedOnExit (eventLoop ?w3 ?two ?ticks (watching ?w3 ?two))"
    by blast
  also have "\<dots> = (\<lparr>subscribed = True, released = True,
                       registerCalls = [''GPU-4af2'', ''GPU-9c3e''],
                       unhealthy = [exampleDevice ''GPU-4af2-_-0'']\<rparr>, Returned)"
    by (simp add: watching_def notSupported_def reg example_keys ev
                  sendMatching_eq [OF ev(3,4)] releasedOnExit_def
             del: sendMatching.simps)
  finally have r3: "checkHealth ?w3 ?two ?ticks
        = (\<lparr>subscribed = True, released = True, registerCalls = [''GPU-4af2'', ''GPU-9c3e''],
            unhealthy = [exampleDevice ''GPU-4af2-_-0'']\<rparr>, Returned)" .
  from r1 r2 r3 show ?thesis by blast
qed

end
